theory Spec2Isabelle
  imports Main
begin

section \<open>Python strings\<close>

text \<open>
  A Python \<open>str\<close> is a sequence of code points. The model is \<open>string\<close>, one \<open>char\<close>
  per code point, which covers the code points below 256 (ASCII and Latin-1); the
  non-ASCII locality tokens of the configuration (\<open>san quint\<acute>in\<close> and the like) lie in
  that range. The character classes below are the restrictions of Python's Unicode
  classes to that range.
\<close>

definition upper_letters :: string where
  "upper_letters = ''ABCDEFGHIJKLMNOPQRSTUVWXYZ'' @
     [CHR 0xC0, CHR 0xC1, CHR 0xC2, CHR 0xC3, CHR 0xC4, CHR 0xC5, CHR 0xC6, CHR 0xC7,
      CHR 0xC8, CHR 0xC9, CHR 0xCA, CHR 0xCB, CHR 0xCC, CHR 0xCD, CHR 0xCE, CHR 0xCF,
      CHR 0xD0, CHR 0xD1, CHR 0xD2, CHR 0xD3, CHR 0xD4, CHR 0xD5, CHR 0xD6,
      CHR 0xD8, CHR 0xD9, CHR 0xDA, CHR 0xDB, CHR 0xDC, CHR 0xDD, CHR 0xDE]"

definition lower_letters :: string where
  "lower_letters = ''abcdefghijklmnopqrstuvwxyz'' @
     [CHR 0xE0, CHR 0xE1, CHR 0xE2, CHR 0xE3, CHR 0xE4, CHR 0xE5, CHR 0xE6, CHR 0xE7,
      CHR 0xE8, CHR 0xE9, CHR 0xEA, CHR 0xEB, CHR 0xEC, CHR 0xED, CHR 0xEE, CHR 0xEF,
      CHR 0xF0, CHR 0xF1, CHR 0xF2, CHR 0xF3, CHR 0xF4, CHR 0xF5, CHR 0xF6,
      CHR 0xF8, CHR 0xF9, CHR 0xFA, CHR 0xFB, CHR 0xFC, CHR 0xFD, CHR 0xFE]"

text \<open>\<open>str.lower()\<close>: the cased code points below 256 are A-Z and the Latin-1 capitals.\<close>

definition lower_char :: "char \<Rightarrow> char" where
  "lower_char c = (case map_of (zip upper_letters lower_letters) c of None \<Rightarrow> c | Some d \<Rightarrow> d)"

definition py_lower :: "string \<Rightarrow> string" where
  "py_lower s = map lower_char s"

text \<open>\<open>str.upper()\<close> on ASCII text (the source applies it to one of the letters N, S, E, W).\<close>

definition upper_char :: "char \<Rightarrow> char" where
  "upper_char c = (case map_of (zip (take 26 lower_letters) (take 26 upper_letters)) c of
                     None \<Rightarrow> c | Some d \<Rightarrow> d)"

definition py_upper :: "string \<Rightarrow> string" where
  "py_upper s = map upper_char s"

text \<open>Whitespace as \<open>str.strip()\<close>, \<open>str.isspace()\<close> and the regex class \<open>\s\<close> see it.\<close>

definition is_space :: "char \<Rightarrow> bool" where
  "is_space c = (c \<in> set [CHR 0x09, CHR 0x0A, CHR 0x0B, CHR 0x0C, CHR 0x0D,
                          CHR 0x1C, CHR 0x1D, CHR 0x1E, CHR 0x1F, CHR 0x20, CHR 0x85, CHR 0xA0])"

definition is_digit :: "char \<Rightarrow> bool" where
  "is_digit c = (c \<in> set ''0123456789'')"

definition py_strip :: "string \<Rightarrow> string" where
  "py_strip s = rev (dropWhile is_space (rev (dropWhile is_space s)))"

text \<open>\<open>t in s\<close> for strings: \<open>t\<close> occurs in \<open>s\<close> as a contiguous substring.\<close>

fun is_prefix :: "string \<Rightarrow> string \<Rightarrow> bool" where
  "is_prefix [] s = True"
| "is_prefix (c # t) [] = False"
| "is_prefix (c # t) (d # s) = (c = d \<and> is_prefix t s)"

fun py_in :: "string \<Rightarrow> string \<Rightarrow> bool" where
  "py_in t [] = (t = [])"
| "py_in t (c # s) = (is_prefix t (c # s) \<or> py_in t s)"

text \<open>\<open>sep.join(parts)\<close>.\<close>

fun py_join :: "string \<Rightarrow> string list \<Rightarrow> string" where
  "py_join sep [] = []"
| "py_join sep [x] = x"
| "py_join sep (x # y # ys) = x @ sep @ py_join sep (y # ys)"

text \<open>\<open>str(n)\<close> for a non-negative integer.\<close>

definition digit_char :: "nat \<Rightarrow> char" where
  "digit_char d = ''0123456789'' ! d"

fun str_nat :: "nat \<Rightarrow> string" where
  "str_nat n = (if n < 10 then [digit_char n] else str_nat (n div 10) @ [digit_char (n mod 10)])"

declare str_nat.simps [simp del]

section \<open>Regular expressions\<close>

text \<open>
  The patterns of the source use character classes (single, or repeated greedily),
  optional and capturing groups, and the anchors \<open>^\<close> and \<open>$\<close>. A backtracking matcher
  tries its alternatives in a fixed order; \<open>rx_run\<close> lists every way a pattern can match
  at a position, in that order, so the head of the list is the match Python's \<open>re\<close>
  reports. A matcher state is the position, the text still to read and the groups
  captured so far.
\<close>

datatype regex =
    Cls "char \<Rightarrow> bool"
  | Repeat "char \<Rightarrow> bool" nat "nat option"
  | Optional "regex list"
  | Group nat "regex list"
  | Bol
  | Eol

type_synonym groups = "(nat \<times> string) list"
type_synonym mstate = "nat \<times> string \<times> groups"

text \<open>How many characters a greedy repetition may take, most first.\<close>

definition rep_counts :: "(char \<Rightarrow> bool) \<Rightarrow> nat \<Rightarrow> nat option \<Rightarrow> string \<Rightarrow> nat list" where
  "rep_counts p lo hi s =
     (let run = length (takeWhile p s);
          mx = (case hi of None \<Rightarrow> run | Some h \<Rightarrow> min h run)
      in rev [lo ..< Suc mx])"

fun rx_run :: "regex list \<Rightarrow> mstate \<Rightarrow> mstate list" where
  "rx_run [] st = [st]"
| "rx_run (Cls p # rs) (pos, s, gs) =
     (case s of [] \<Rightarrow> [] | c # cs \<Rightarrow> if p c then rx_run rs (Suc pos, cs, gs) else [])"
| "rx_run (Repeat p lo hi # rs) (pos, s, gs) =
     concat (map (\<lambda>k. rx_run rs (pos + k, drop k s, gs)) (rep_counts p lo hi s))"
| "rx_run (Optional xs # rs) st = concat (map (rx_run rs) (rx_run xs st @ [st]))"
| "rx_run (Group n xs # rs) (pos, s, gs) =
     concat (map (\<lambda>(pos', s', gs'). rx_run rs (pos', s', (n, take (pos' - pos) s) # gs'))
                 (rx_run xs (pos, s, gs)))"
| "rx_run (Bol # rs) (pos, s, gs) = (if pos = 0 then rx_run rs (pos, s, gs) else [])"
| "rx_run (Eol # rs) (pos, s, gs) =
     (if s = [] \<or> s = [CHR 0x0A] then rx_run rs (pos, s, gs) else [])"

text \<open>\<open>re.match\<close>: the first match at position 0. \<open>re.search\<close>: the first match at the
  leftmost position that has one. Both give the captured groups, or \<open>None\<close>.\<close>

definition re_match :: "regex list \<Rightarrow> string \<Rightarrow> groups option" where
  "re_match rx s = (case rx_run rx (0, s, []) of [] \<Rightarrow> None | (pos, s', gs) # _ \<Rightarrow> Some gs)"

fun search_from :: "regex list \<Rightarrow> nat \<Rightarrow> string \<Rightarrow> groups option" where
  "search_from rx pos [] =
     (case rx_run rx (pos, [], []) of [] \<Rightarrow> None | (pos', s', gs) # _ \<Rightarrow> Some gs)"
| "search_from rx pos (c # cs) =
     (case rx_run rx (pos, c # cs, []) of
        [] \<Rightarrow> search_from rx (Suc pos) cs
      | (pos', s', gs) # _ \<Rightarrow> Some gs)"

definition re_search :: "regex list \<Rightarrow> string \<Rightarrow> groups option" where
  "re_search rx s = search_from rx 0 s"

text \<open>\<open>m.group(n)\<close>. Every group of the source's patterns takes part in every match, so
  the value for an absent group is never read.\<close>

definition group :: "groups \<Rightarrow> nat \<Rightarrow> string" where
  "group gs n = (case map_of gs n of None \<Rightarrow> [] | Some g \<Rightarrow> g)"

section \<open>Python floats\<close>

text \<open>
  A Python \<open>float\<close> is an IEEE 754 binary64 value. \<open>Finite neg m e\<close> stands for
  \<open>(-1)^neg * m * 2^e\<close>; the conversions below produce the canonical form of a double
  (\<open>m < 2^53\<close>, \<open>-1074 \<le> e \<le> 971\<close>, \<open>2^52 \<le> m\<close> unless \<open>e = -1074\<close>, and \<open>e = 0\<close> for
  zero), with the sign kept apart so that \<open>-0.0\<close> exists. All arithmetic is exact
  integer arithmetic; rounding is to nearest, ties to even, as the hardware and
  CPython's \<open>strtod\<close> and \<open>dtoa\<close> do it.
\<close>

datatype pyfloat = Finite bool nat int | Infinity bool | NaN

fun bitlen :: "nat \<Rightarrow> nat" where
  "bitlen n = (if n = 0 then 0 else Suc (bitlen (n div 2)))"

declare bitlen.simps [simp del]

text \<open>\<open>a / b\<close> rounded to the nearest integer, ties to even.\<close>

definition rne_div :: "nat \<Rightarrow> nat \<Rightarrow> nat" where
  "rne_div a b =
     (let d = a div b; r = a mod b
      in if 2 * r < b then d else if b < 2 * r then d + 1 else if even d then d else d + 1)"

definition ge_pow2 :: "nat \<Rightarrow> nat \<Rightarrow> int \<Rightarrow> bool" where
  "ge_pow2 p q l = (if 0 \<le> l then q * 2 ^ nat l \<le> p else q \<le> p * 2 ^ nat (- l))"

text \<open>The double nearest to \<open>p / q\<close> (for \<open>q > 0\<close>), as mantissa and exponent; \<open>None\<close>
  when the value rounds beyond the largest double.\<close>

definition round_double :: "nat \<Rightarrow> nat \<Rightarrow> (nat \<times> int) option" where
  "round_double p q =
     (if p = 0 then Some (0, 0)
      else
        let l = int (bitlen p) - int (bitlen q);
            t = (if ge_pow2 p q l then l else l - 1);
            e = max (t - 52) (- 1074);
            m = (if 0 \<le> e then rne_div p (q * 2 ^ nat e) else rne_div (p * 2 ^ nat (- e)) q);
            m' = (if m = 2 ^ 53 then 2 ^ 52 else m);
            e' = (if m = 2 ^ 53 then e + 1 else e)
        in if 971 < e' then None else if m' = 0 then Some (0, 0) else Some (m', e'))"

text \<open>The double nearest to the decimal \<open>n * 10^k\<close>.\<close>

definition dec_double :: "nat \<Rightarrow> int \<Rightarrow> (nat \<times> int) option" where
  "dec_double n k = (if 0 \<le> k then round_double (n * 10 ^ nat k) 1 else round_double n (10 ^ nat (- k)))"

subsection \<open>\<open>float(s)\<close>\<close>

text \<open>
  \<open>float\<close> strips whitespace (the ASCII blanks, and the non-ASCII spaces, which it first
  turns into blanks), removes underscores that stand between two digits, and reads an
  optional sign followed by \<open>inf\<close>, \<open>infinity\<close> or \<open>nan\<close> in any case, or by a decimal
  literal \<open>digits [. [digits]] | . digits\<close> with an optional exponent. Anything else
  raises \<open>ValueError\<close>, which is \<open>None\<close> here. A literal too large for a double is
  an infinity.
\<close>

definition float_space :: "char \<Rightarrow> bool" where
  "float_space c = (c \<in> set [CHR 0x09, CHR 0x0A, CHR 0x0B, CHR 0x0C, CHR 0x0D, CHR 0x20,
                              CHR 0x85, CHR 0xA0])"

definition float_strip :: "string \<Rightarrow> string" where
  "float_strip s = rev (dropWhile float_space (rev (dropWhile float_space s)))"

fun drop_underscores :: "char \<Rightarrow> string \<Rightarrow> string option" where
  "drop_underscores prev [] = (if prev = CHR ''_'' then None else Some [])"
| "drop_underscores prev (c # cs) =
     (if c = CHR ''_'' then (if is_digit prev then drop_underscores c cs else None)
      else if prev = CHR ''_'' \<and> \<not> is_digit c then None
      else map_option ((#) c) (drop_underscores c cs))"

definition take_sign :: "string \<Rightarrow> bool \<times> string" where
  "take_sign s =
     (case s of
        [] \<Rightarrow> (False, [])
      | c # cs \<Rightarrow> if c = CHR ''-'' then (True, cs) else if c = CHR ''+'' then (False, cs) else (False, s))"

definition digit_val :: "char \<Rightarrow> nat" where
  "digit_val c = length (takeWhile (\<lambda>d. d \<noteq> c) ''0123456789'')"

definition digits_to_nat :: "string \<Rightarrow> nat" where
  "digits_to_nat s = foldl (\<lambda>a c. 10 * a + digit_val c) 0 s"

text \<open>What follows the mantissa: nothing, or \<open>e\<close>, an optional sign and digits.\<close>

definition parse_exponent :: "string \<Rightarrow> int option" where
  "parse_exponent s =
     (case s of
        [] \<Rightarrow> Some 0
      | c # cs \<Rightarrow>
          if c = CHR ''e'' \<or> c = CHR ''E'' then
            (let (neg, ds) = take_sign cs
             in if ds \<noteq> [] \<and> list_all is_digit ds
                then Some (if neg then - int (digits_to_nat ds) else int (digits_to_nat ds))
                else None)
          else None)"

definition parse_decimal :: "string \<Rightarrow> (nat \<times> int) option" where
  "parse_decimal s =
     (let ip = takeWhile is_digit s;
          r1 = dropWhile is_digit s;
          fp = (case r1 of [] \<Rightarrow> [] | c # cs \<Rightarrow> if c = CHR ''.'' then takeWhile is_digit cs else []);
          r2 = (case r1 of [] \<Rightarrow> [] | c # cs \<Rightarrow> if c = CHR ''.'' then dropWhile is_digit cs else r1)
      in if ip = [] \<and> fp = [] then None
         else case parse_exponent r2 of
                None \<Rightarrow> None
              | Some ex \<Rightarrow> Some (digits_to_nat (ip @ fp), ex - int (length fp)))"

definition py_float :: "string \<Rightarrow> pyfloat option" where
  "py_float s =
     (case drop_underscores (CHR 0x00) (float_strip s) of
        None \<Rightarrow> None
      | Some u \<Rightarrow>
          (let (neg, r) = take_sign u; lr = py_lower r
           in if lr = ''inf'' \<or> lr = ''infinity'' then Some (Infinity neg)
              else if lr = ''nan'' then Some NaN
              else case parse_decimal r of
                     None \<Rightarrow> None
                   | Some (n, k) \<Rightarrow>
                       Some (case dec_double n k of
                               None \<Rightarrow> Infinity neg
                             | Some (m, e) \<Rightarrow> Finite neg m e)))"

subsection \<open>\<open>repr(x)\<close>, which is also \<open>str(x)\<close> and the f-string form\<close>

text \<open>
  \<open>repr\<close> prints the shortest digit string that reads back as the same double, and
  of two such strings of that length the one nearer to the value (the even one at a
  tie). \<open>decpt\<close> is the position of the decimal point: \<open>10^(decpt - 1) \<le> p / q < 10^decpt\<close>.
  The digits are printed in positional notation when \<open>-4 < decpt \<le> 16\<close> and with an
  exponent of at least two digits otherwise.
\<close>

definition frac_of :: "nat \<Rightarrow> int \<Rightarrow> nat \<times> nat" where
  "frac_of m e = (if 0 \<le> e then (m * 2 ^ nat e, 1) else (m, 2 ^ nat (- e)))"

definition decpt :: "nat \<Rightarrow> nat \<Rightarrow> int" where
  "decpt p q =
     (if q \<le> p then int (length (str_nat (p div q)))
      else 1 - int (length (str_nat ((q + p - 1) div p - 1))))"

definition scaled_floor :: "nat \<Rightarrow> nat \<Rightarrow> int \<Rightarrow> nat" where
  "scaled_floor p q k = (if 0 \<le> k then (p * 10 ^ nat k) div q else p div (q * 10 ^ nat (- k)))"

text \<open>The \<open>n\<close>-digit candidate for the double \<open>(m, e)\<close>, if one reads back as it: its
  digits and its decimal point.\<close>

definition repr_candidate :: "nat \<Rightarrow> int \<Rightarrow> nat \<Rightarrow> (string \<times> int) option" where
  "repr_candidate m e n =
     (let (p, q) = frac_of m e;
          d = decpt p q;
          k = int n - d;
          lo = scaled_floor p q k;
          hi = lo + 1;
          oklo = (dec_double lo (- k) = Some (m, e));
          okhi = (dec_double hi (- k) = Some (m, e));
          a = (if 0 \<le> k then 2 * p * 10 ^ nat k else 2 * p);
          b = (if 0 \<le> k then (lo + hi) * q else (lo + hi) * q * 10 ^ nat (- k));
          c = (if oklo \<and> (\<not> okhi \<or> a < b \<or> (a = b \<and> even lo)) then lo else hi)
      in if oklo \<or> okhi
         then Some (if c = 10 ^ n then (''1'', d + 1) else (str_nat c, d))
         else None)"

fun first_candidate :: "nat \<Rightarrow> int \<Rightarrow> nat list \<Rightarrow> (string \<times> int) option" where
  "first_candidate m e [] = None"
| "first_candidate m e (n # ns) =
     (case repr_candidate m e n of None \<Rightarrow> first_candidate m e ns | Some r \<Rightarrow> Some r)"

text \<open>Seventeen digits always suffice for a double; the last case is never taken.\<close>

definition shortest_digits :: "nat \<Rightarrow> int \<Rightarrow> string \<times> int" where
  "shortest_digits m e =
     (case first_candidate m e [1, 2, 3, 4, 5, 6, 7, 8, 9, 10, 11, 12, 13, 14, 15, 16, 17] of
        Some r \<Rightarrow> r
      | None \<Rightarrow> (let (p, q) = frac_of m e; d = decpt p q in (str_nat (scaled_floor p q (17 - d)), d)))"

definition format_repr :: "string \<Rightarrow> int \<Rightarrow> string" where
  "format_repr ds d =
     (let n = int (length ds) in
      if 16 < d \<or> d < - 3 then
        (let ex = d - 1; es = str_nat (nat \<bar>ex\<bar>)
         in take 1 ds @ (if 1 < n then ''.'' @ drop 1 ds else []) @ ''e''
            @ (if ex < 0 then ''-'' else ''+'') @ (if length es < 2 then ''0'' @ es else es))
      else if d \<le> 0 then ''0.'' @ replicate (nat (- d)) (CHR ''0'') @ ds
      else if n \<le> d then ds @ replicate (nat (d - n)) (CHR ''0'') @ ''.0''
      else take (nat d) ds @ ''.'' @ drop (nat d) ds)"

fun py_repr :: "pyfloat \<Rightarrow> string" where
  "py_repr NaN = ''nan''"
| "py_repr (Infinity neg) = (if neg then ''-inf'' else ''inf'')"
| "py_repr (Finite neg m e) =
     (if neg then ''-'' else []) @
     (if m = 0 then ''0.0'' else (let (ds, d) = shortest_digits m e in format_repr ds d))"

subsection \<open>Negation, comparison and \<open>round(x, ndigits)\<close>\<close>

fun py_neg :: "pyfloat \<Rightarrow> pyfloat" where
  "py_neg NaN = NaN"
| "py_neg (Infinity neg) = Infinity (\<not> neg)"
| "py_neg (Finite neg m e) = Finite (\<not> neg) m e"

definition signed :: "bool \<Rightarrow> nat \<Rightarrow> int" where
  "signed neg m = (if neg then - int m else int m)"

text \<open>\<open>a <= b\<close> on floats: false when either is a NaN, by exact value otherwise.\<close>

fun float_le :: "pyfloat \<Rightarrow> pyfloat \<Rightarrow> bool" where
  "float_le (Finite n1 m1 e1) (Finite n2 m2 e2) =
     (let lo = min e1 e2
      in signed n1 m1 * 2 ^ nat (e1 - lo) \<le> signed n2 m2 * 2 ^ nat (e2 - lo))"
| "float_le (Finite n1 m1 e1) (Infinity neg) = (\<not> neg)"
| "float_le (Infinity neg) (Finite n2 m2 e2) = neg"
| "float_le (Infinity neg1) (Infinity neg2) = (neg1 \<or> \<not> neg2)"
| "float_le NaN y = False"
| "float_le x NaN = False"

text \<open>
  \<open>round(x, ndigits)\<close> on a float: infinities and NaN round to themselves; beyond 323
  digits the value is returned, below -308 a zero of its sign; otherwise the exact value
  is rounded (ties to even) to \<open>ndigits\<close> decimal places and the result read back as a
  double. \<open>None\<close> is the \<open>OverflowError\<close> raised when that result is too large.
\<close>

fun py_round :: "pyfloat \<Rightarrow> int \<Rightarrow> pyfloat option" where
  "py_round NaN nd = Some NaN"
| "py_round (Infinity neg) nd = Some (Infinity neg)"
| "py_round (Finite neg m e) nd =
     (if 323 < nd then Some (Finite neg m e)
      else if nd < - 308 then Some (Finite neg 0 0)
      else
        let (p, q) = frac_of m e;
            r = (if 0 \<le> nd then rne_div (p * 10 ^ nat nd) q else rne_div p (q * 10 ^ nat (- nd)))
        in case dec_double r (- nd) of
             None \<Rightarrow> None
           | Some (m', e') \<Rightarrow> Some (Finite neg m' e'))"

section \<open>Parse helpers\<close>

datatype py_error = ValueError | OverflowError

text \<open>
  \<^verbatim>\<open>^\s*([+-]?\d+(?:\.\d+)?)\s*[,;/]\s*([+-]?\d+(?:\.\d+)?)\s*$\<close> and
  \<^verbatim>\<open>([0-9]+(?:\.[0-9]+)?)\s*([NSns])[^0-9\-+]+([0-9]+(?:\.[0-9]+)?)\s*([EWew])\<close>
\<close>

definition one_of :: "string \<Rightarrow> char \<Rightarrow> bool" where
  "one_of cs c = (c \<in> set cs)"

definition none_of :: "string \<Rightarrow> char \<Rightarrow> bool" where
  "none_of cs c = (c \<notin> set cs)"

definition unsigned_number :: "regex list" where
  "unsigned_number = [Repeat is_digit 1 None, Optional [Cls (one_of ''.''), Repeat is_digit 1 None]]"

definition signed_number :: "regex list" where
  "signed_number = Repeat (one_of ''+-'') 0 (Some 1) # unsigned_number"

definition DECIMAL_PAIR_RE :: "regex list" where
  "DECIMAL_PAIR_RE =
     [Bol, Repeat is_space 0 None, Group 1 signed_number, Repeat is_space 0 None,
      Cls (one_of '',;/''), Repeat is_space 0 None, Group 2 signed_number,
      Repeat is_space 0 None, Eol]"

definition HEMISPHERE_RE :: "regex list" where
  "HEMISPHERE_RE =
     [Group 1 unsigned_number, Repeat is_space 0 None, Group 2 [Cls (one_of ''NSns'')],
      Repeat (none_of ''0123456789-+'') 1 None,
      Group 3 unsigned_number, Repeat is_space 0 None, Group 4 [Cls (one_of ''EWew'')]]"

text \<open>
  \<open>parse_lat_lon\<close>. The calls of \<open>float\<close> are the only operations of the function that
  can raise; an exception leaves the function, so it is the result \<open>Inl\<close>.
\<close>

definition parse_lat_lon :: "string \<Rightarrow> py_error + (string \<times> string)" where
  "parse_lat_lon s0 =
     (if s0 = [] then Inr ([], [])
      else
        let s = py_strip s0 in
        case re_match DECIMAL_PAIR_RE s of
          Some m \<Rightarrow> Inr (group m 1, group m 2)
        | None \<Rightarrow>
            (case re_search HEMISPHERE_RE s of
               Some m \<Rightarrow>
                 (case py_float (group m 1) of
                    None \<Rightarrow> Inl ValueError
                  | Some lat \<Rightarrow>
                      (let ns = py_upper (group m 2) in
                       case py_float (group m 3) of
                         None \<Rightarrow> Inl ValueError
                       | Some lon \<Rightarrow>
                           (let ew = py_upper (group m 4);
                                lat' = (if ns = ''S'' then py_neg lat else lat);
                                lon' = (if ew = ''W'' then py_neg lon else lon)
                            in Inr (py_repr lat', py_repr lon'))))
             | None \<Rightarrow> Inr ([], [])))"

text \<open>\<open>pick_marker\<close>: the flag of a marker is \<open>X\<close> when one of its keywords occurs in the
  lower-cased text \<open>definition + " " + feature_text\<close>, and empty otherwise.\<close>

record flags =
  flag_COI :: string
  flag_18S :: string
  flag_28S :: string
  flag_ITS1 :: string
  flag_ITS2 :: string

definition pick_marker :: "string \<Rightarrow> string \<Rightarrow> flags" where
  "pick_marker definition feature_text =
     (let text = py_lower (definition @ '' '' @ feature_text);
          f0 = \<lparr>flag_COI = [], flag_18S = [], flag_28S = [], flag_ITS1 = [], flag_ITS2 = []\<rparr>;
          f1 = (if py_in ''coi'' text \<or> py_in ''cox1'' text \<or> py_in ''cytochrome oxidase subunit i'' text
                then f0\<lparr>flag_COI := ''X''\<rparr> else f0);
          f2 = (if py_in ''18s'' text \<or> py_in ''small subunit'' text \<or> py_in ''ssu'' text
                then f1\<lparr>flag_18S := ''X''\<rparr> else f1);
          f3 = (if py_in ''28s'' text \<or> py_in ''large subunit'' text \<or> py_in ''lsu'' text
                then f2\<lparr>flag_28S := ''X''\<rparr> else f2);
          f4 = (if py_in ''its1'' text then f3\<lparr>flag_ITS1 := ''X''\<rparr> else f3);
          f5 = (if py_in ''its2'' text then f4\<lparr>flag_ITS2 := ''X''\<rparr> else f4)
      in f5)"

subsection \<open>XML elements and \<open>extract_doi_any\<close>\<close>

text \<open>
  An \<open>xml.etree\<close> element, as far as the source reads it: its tag, its text (which may
  be absent) and its children in document order. \<open>find_child\<close>, \<open>findall_children\<close> and
  \<open>findtext\<close> are \<open>find\<close>, \<open>findall\<close> and \<open>findtext\<close> on a path \<open>./tag\<close>; \<open>findtext\<close>
  gives the empty string for an element without text and \<open>None\<close> when no child has
  the tag. \<open>or_empty\<close> is the idiom \<open>x or ""\<close>.
\<close>

datatype xml = Element (xml_tag: string) (xml_text: "string option") (xml_children: "xml list")

definition find_child :: "string \<Rightarrow> xml \<Rightarrow> xml option" where
  "find_child t node = List.find (\<lambda>c. xml_tag c = t) (xml_children node)"

definition findall_children :: "string \<Rightarrow> xml \<Rightarrow> xml list" where
  "findall_children t node = filter (\<lambda>c. xml_tag c = t) (xml_children node)"

definition findall_path2 :: "string \<Rightarrow> string \<Rightarrow> xml \<Rightarrow> xml list" where
  "findall_path2 t1 t2 node = concat (map (findall_children t2) (findall_children t1 node))"

definition or_empty :: "string option \<Rightarrow> string" where
  "or_empty x = (case x of None \<Rightarrow> [] | Some s \<Rightarrow> s)"

definition findtext :: "string \<Rightarrow> xml \<Rightarrow> string option" where
  "findtext t node = map_option (\<lambda>c. or_empty (xml_text c)) (find_child t node)"

text \<open>\<^verbatim>\<open>(10\.\d{4,9}/[^\s"<>]+)\<close>, compiled with \<open>IGNORECASE\<close>, which changes nothing for a
  pattern without letters.\<close>

definition DOI_RE :: "regex list" where
  "DOI_RE =
     [Group 1 [Cls (one_of ''1''), Cls (one_of ''0''), Cls (one_of ''.''),
               Repeat is_digit 4 (Some 9), Cls (one_of ''/''),
               Repeat (\<lambda>c. \<not> is_space c \<and> none_of [CHR 0x22, CHR ''<'', CHR ''>''] c) 1 None]]"

text \<open>The loop over the entries of a cross-reference list: \<open>Some v\<close> when the loop
  returns \<open>v\<close>, \<open>None\<close> when it runs to its end.\<close>

fun xref_loop :: "string \<Rightarrow> string \<Rightarrow> xml list \<Rightarrow> string option" where
  "xref_loop dbname_tag id_tag [] = None"
| "xref_loop dbname_tag id_tag (x # xs) =
     (let db = py_lower (or_empty (findtext dbname_tag x)) in
      if db = ''doi'' then
        (let val = or_empty (findtext id_tag x) in
         if val \<noteq> [] then Some (py_strip val) else xref_loop dbname_tag id_tag xs)
      else xref_loop dbname_tag id_tag xs)"

definition xref_lookup :: "string \<Rightarrow> string \<Rightarrow> string \<Rightarrow> string \<Rightarrow> xml \<Rightarrow> string option" where
  "xref_lookup xref_tag entry_tag dbname_tag id_tag ref_node =
     (case find_child xref_tag ref_node of
        None \<Rightarrow> None
      | Some xp \<Rightarrow> xref_loop dbname_tag id_tag (findall_children entry_tag xp))"

definition TEXT_TAGS :: "string list" where
  "TEXT_TAGS = [''INSDReference_title'', ''INSDReference_journal'', ''INSDReference_remark'',
                ''GBReference_title'', ''GBReference_journal'', ''GBReference_remark'']"

definition text_parts :: "xml \<Rightarrow> string list" where
  "text_parts ref_node =
     concat (map (\<lambda>tag. case findtext tag ref_node of
                           None \<Rightarrow> []
                         | Some t \<Rightarrow> if t \<noteq> [] then [t] else []) TEXT_TAGS)"

definition extract_doi_any :: "xml \<Rightarrow> string" where
  "extract_doi_any ref_node =
     (case xref_lookup ''INSDReference_xref'' ''INSDXref'' ''INSDXref_dbname'' ''INSDXref_id'' ref_node of
        Some v \<Rightarrow> v
      | None \<Rightarrow>
          (case xref_lookup ''GBReference_xref'' ''GBXref'' ''GBXref_dbname'' ''GBXref_id'' ref_node of
             Some v \<Rightarrow> v
           | None \<Rightarrow>
               (case re_search DOI_RE (py_join '' '' (text_parts ref_node)) of
                  Some m \<Rightarrow> group m 1
                | None \<Rightarrow> [])))"

section \<open>Configuration\<close>

text \<open>
  The module-level constants that the functions below read, as one record, so that a
  statement can speak about a run with region filtering off as well as on. The bounds of
  the box are floats; \<open>GROUP_ROUND\<close> and \<open>DEBUG_SHOW_DROPS\<close> are integers.
  \<open>REGION_FILTER\<close> is the list of region names of the baseline script
  (\<open>src/unnamed/part_000\<close>), which has no \<open>REGION_TEXT_TOKENS\<close>.
\<close>

record config =
  REGION_FILTER_ENABLED :: bool
  USE_LATLON_BOX :: bool
  LAT_MIN :: pyfloat
  LAT_MAX :: pyfloat
  LON_MIN :: pyfloat
  LON_MAX :: pyfloat
  REGION_ALLOW_PACIFIC_GENERAL :: bool
  EDNA_REGION_RELAXED :: bool
  DEBUG_SHOW_DROPS :: int
  REGION_TEXT_TOKENS :: "string list"
  REGION_FILTER :: "string list"
  CLASSIFY_EDNA :: bool
  EDNA_KEYWORDS :: "string list"
  COMPUTE_POPULATION_REP :: bool
  GROUP_ROUND :: int

definition default_tokens :: "string list" where
  "default_tokens =
     [''alaska'', ''british columbia'', ''washington'', ''oregon'', ''california'',
      ''baja california'', ''baja california sur'', ''baja california norte'', ''usa: alaska'',
      ''usa: washington'', ''usa: oregon'', ''usa: california'', ''canada: british columbia'',
      ''mexico: baja california'', ''mexico: baja california sur'',
      ''mexico: baja california norte'', ''us: ak'', ''us: wa'', ''us: or'', ''us: ca'',
      ''usa: ak'', ''usa: wa'', ''usa: or'', ''usa: ca'', ''canada: bc'', ''ca: bc'',
      ''mexico: bc'', ''mexico: bcs'', ''mexico: bcn'', ''bcs'', ''bcn'', ''pacific ocean'',
      ''north pacific'', ''eastern pacific'', ''northeast pacific'', ''california current'',
      ''west coast'', ''gulf of alaska'', ''aleutian'', ''prince william sound'', ''kodiak'',
      ''kenai'', ''kachemak'', ''southeast alaska'', ''sitka'', ''ketchikan'', ''juneau'',
      ''vancouver island'', ''haida gwaii'', ''queen charlotte'', ''inside passage'',
      ''strait of georgia'', ''salish sea'', ''juan de fuca'', ''barkley sound'', ''tofino'',
      ''ucluelet'', ''puget sound'', ''san juan islands'', ''olympic coast'', ''grays harbor'',
      ''willapa bay'', ''columbia river'', ''tillamook'', ''coos bay'', ''yaquina'',
      ''newport'', ''brookings'', ''oregon coast'', ''humboldt'', ''trinidad head'',
      ''mendocino'', ''bodega bay'', ''point reyes'', ''san francisco bay'', ''half moon bay'',
      ''monterey bay'', ''moss landing'', ''carmel'', ''point lobos'', ''big sur'',
      ''morro bay'', ''avila'', ''pismo'', ''santa barbara'', ''goleta'',
      ''santa barbara channel'', ''channel islands'', ''anacapa'', ''santa cruz island'',
      ''point conception'', ''santa catalina'', ''catalina island'', ''san pedro'',
      ''long beach'', ''palos verdes'', ''redondo'', ''santa monica bay'', ''malibu'',
      ''ventura'', ''la jolla'', ''scripps pier'', ''mission bay'', ''san diego'',
      ''san diego bay'', ''imperial beach'', ''ensenada'', ''rosarito'',
      ''san quint'' @ [CHR 0xED] @ ''n'',
      ''bah'' @ [CHR 0xED] @ ''a san quint'' @ [CHR 0xED] @ ''n'', ''bahia san quintin'',
      ''bah'' @ [CHR 0xED] @ ''a de los '' @ [CHR 0xE1] @ ''ngeles'', ''bahia de los angeles'',
      ''isla de cedros'', ''bah'' @ [CHR 0xED] @ ''a tortugas'', ''bahia tortugas'',
      ''guerrero negro'', ''laguna ojo de liebre'', ''vizca'' @ [CHR 0xED] @ ''no'',
      ''laguna san ignacio'', ''bah'' @ [CHR 0xED] @ ''a magdalena'', ''bahia magdalena'',
      ''loreto'', ''bah'' @ [CHR 0xED] @ ''a concepci'' @ [CHR 0xF3] @ ''n'',
      ''bahia concepcion'', ''muleg'' @ [CHR 0xE9], ''mulege'', ''la paz'', ''cabo san lucas'',
      ''san jos'' @ [CHR 0xE9] @ '' del cabo'', ''san jose del cabo'', ''todos santos'',
      ''gulf of california'', ''sea of cortez'', ''mar de cort'' @ [CHR 0xE9] @ ''s'',
      ''mar de cortes'']"

text \<open>The values the region-aware script assigns.\<close>

definition default_config :: config where
  "default_config =
     \<lparr>REGION_FILTER_ENABLED = True, USE_LATLON_BOX = True,
      LAT_MIN = Finite False 22 0, LAT_MAX = Finite False 72 0,
      LON_MIN = Finite True 180 0, LON_MAX = Finite True 100 0,
      REGION_ALLOW_PACIFIC_GENERAL = True, EDNA_REGION_RELAXED = True,
      DEBUG_SHOW_DROPS = 12,
      REGION_TEXT_TOKENS = default_tokens,
      REGION_FILTER = [''Alaska'', ''British Columbia'', ''Washington'', ''Oregon'',
                       ''California'', ''Baja California''],
      CLASSIFY_EDNA = True,
      EDNA_KEYWORDS = [''edna'', ''environmental dna'', ''environmental sample'', ''metabarcoding'',
                       ''metagenom'', ''amplicon'', ''bulk sample'', ''seawater'', ''sea water'',
                       ''water filter'', ''plankton'', ''sediment'', ''marine sediment'', ''biofilm''],
      COMPUTE_POPULATION_REP = True, GROUP_ROUND = 2\<rparr>"

section \<open>Classification and region decision\<close>

definition text_blob :: "string \<Rightarrow> string \<Rightarrow> string \<Rightarrow> string" where
  "text_blob locality definition feature_text =
     py_lower ('' '' @ locality @ '' '' @ definition @ '' '' @ feature_text @ '' '')"

definition detect_edna :: "config \<Rightarrow> string \<Rightarrow> string \<Rightarrow> string \<Rightarrow> string set \<Rightarrow> bool \<times> string" where
  "detect_edna cfg locality definition feature_text qualifier_names =
     (if \<not> CLASSIFY_EDNA cfg then (False, ''off'')
      else
        let blob = text_blob locality definition feature_text in
        if ''environmental_sample'' \<in> qualifier_names \<or> ''metagenomic'' \<in> qualifier_names
        then (True, ''qualifier'')
        else if list_ex (\<lambda>k. py_in k blob) (EDNA_KEYWORDS cfg) then (True, ''keyword'')
        else (False, []))"

definition PACIFIC_GENERAL :: "string list" where
  "PACIFIC_GENERAL = [''pacific ocean'', ''north pacific'', ''eastern pacific'',
                      ''northeast pacific'', ''california current'', ''west coast'']"

text \<open>The coordinate test of both scripts: \<open>None\<close> stands for the \<open>ValueError\<close> of
  \<open>float\<close>, which the source catches and passes over.\<close>

definition in_box :: "config \<Rightarrow> string \<Rightarrow> string \<Rightarrow> bool option" where
  "in_box cfg lat_s lon_s =
     (case py_float lat_s of
        None \<Rightarrow> None
      | Some lat_f \<Rightarrow>
          (case py_float lon_s of
             None \<Rightarrow> None
           | Some lon_f \<Rightarrow>
               Some (float_le (LAT_MIN cfg) lat_f \<and> float_le lat_f (LAT_MAX cfg) \<and>
                     float_le (LON_MIN cfg) lon_f \<and> float_le lon_f (LON_MAX cfg))))"

definition latlon_fallback :: "config \<Rightarrow> string \<Rightarrow> py_error + (bool \<times> string)" where
  "latlon_fallback cfg lat_raw =
     (if USE_LATLON_BOX cfg \<and> lat_raw \<noteq> [] then
        (case parse_lat_lon lat_raw of
           Inl err \<Rightarrow> Inl err
         | Inr (lat_s, lon_s) \<Rightarrow>
             if lat_s \<noteq> [] \<and> lon_s \<noteq> [] \<and> in_box cfg lat_s lon_s = Some True
             then Inr (True, ''latlon'')
             else Inr (False, ''none''))
      else Inr (False, ''none''))"

text \<open>\<open>region_match\<close> of the region-aware script.\<close>

definition region_match :: "config \<Rightarrow> string \<Rightarrow> string \<Rightarrow> string \<Rightarrow> string \<Rightarrow> py_error + (bool \<times> string)" where
  "region_match cfg locality definition feature_text lat_raw =
     (if \<not> REGION_FILTER_ENABLED cfg then Inr (True, ''disabled'')
      else
        let blob = text_blob locality definition feature_text in
        if REGION_ALLOW_PACIFIC_GENERAL cfg \<and> list_ex (\<lambda>tok. py_in tok blob) PACIFIC_GENERAL
        then Inr (True, ''pacific'')
        else if list_ex (\<lambda>tok. py_in tok blob) (REGION_TEXT_TOKENS cfg) then Inr (True, ''text'')
        else latlon_fallback cfg lat_raw)"

text \<open>\<open>region_match\<close> of the baseline script, which has neither the switch nor the
  general Pacific rule, and which nothing in that script calls.\<close>

definition region_match_baseline :: "config \<Rightarrow> string \<Rightarrow> string \<Rightarrow> string \<Rightarrow> string \<Rightarrow> py_error + (bool \<times> string)" where
  "region_match_baseline cfg locality definition feature_text lat_raw =
     (let text = py_lower (py_join '' '' [locality, definition, feature_text]) in
      if REGION_FILTER cfg \<noteq> [] \<and> list_ex (\<lambda>r. py_in (py_lower r) text) (REGION_FILTER cfg)
      then Inr (True, ''text'')
      else latlon_fallback cfg lat_raw)"

section \<open>Record normalizer\<close>

text \<open>
  The dictionary that the two parsers build for a sequence node. \<open>_parse_insdseq_nodes\<close>
  and \<open>_parse_gbseq_nodes\<close> are the same function up to the prefix of the tag names
  (\<open>INSD\<close> or \<open>GB\<close>), which is the parameter \<open>pre\<close> here.
\<close>

record parsed_rec =
  accession :: string
  organism :: string
  definition' :: string
  locality :: string
  lat_raw :: string
  depth :: string
  date :: string
  feature_notes :: "string list"
  qual_names :: "string set"
  doi :: string

definition apply_qualifier :: "string \<Rightarrow> string \<Rightarrow> string \<Rightarrow> parsed_rec \<Rightarrow> parsed_rec" where
  "apply_qualifier key name val rec =
     (if key = ''source'' then
        (let rec1 = rec\<lparr>qual_names := insert name (qual_names rec)\<rparr> in
         if name = ''country'' then rec1\<lparr>locality := val\<rparr>
         else if name \<in> set [''lat_lon'', ''lat-lon'', ''lat-long'', ''latlong''] then rec1\<lparr>lat_raw := val\<rparr>
         else if name = ''depth'' then rec1\<lparr>depth := val\<rparr>
         else if name = ''collection_date'' then rec1\<lparr>date := val\<rparr>
         else if name \<in> set [''isolation_source'', ''note''] \<and> val \<noteq> []
              then rec1\<lparr>feature_notes := feature_notes rec1 @ [val]\<rparr>
         else rec1)
      else if name \<in> set [''gene'', ''product''] \<and> val \<noteq> []
           then rec\<lparr>feature_notes := feature_notes rec @ [val]\<rparr>
      else rec)"

definition apply_feature :: "string \<Rightarrow> parsed_rec \<Rightarrow> xml \<Rightarrow> parsed_rec" where
  "apply_feature pre rec feat =
     (let key = or_empty (findtext (pre @ ''Feature_key'') feat) in
      foldl (\<lambda>r q. apply_qualifier key
                      (py_lower (or_empty (findtext (pre @ ''Qualifier_name'') q)))
                      (or_empty (findtext (pre @ ''Qualifier_value'') q)) r)
            rec
            (findall_path2 (pre @ ''Feature_quals'') (pre @ ''Qualifier'') feat))"

definition parse_seq_node :: "string \<Rightarrow> xml \<Rightarrow> parsed_rec" where
  "parse_seq_node pre node =
     (let av = or_empty (findtext (pre @ ''Seq_accession-version'') node);
          rec0 = \<lparr>accession = (if av \<noteq> [] then av
                                else or_empty (findtext (pre @ ''Seq_primary-accession'') node)),
                  organism = or_empty (findtext (pre @ ''Seq_organism'') node),
                  definition' = or_empty (findtext (pre @ ''Seq_definition'') node),
                  locality = [], lat_raw = [], depth = [], date = [],
                  feature_notes = [], qual_names = {}, doi = []\<rparr>;
          rec1 = foldl (apply_feature pre) rec0
                   (findall_path2 (pre @ ''Seq_feature-table'') (pre @ ''Feature'') node);
          refs = findall_path2 (pre @ ''Seq_references'') (pre @ ''Reference'') node
      in case refs of
           [] \<Rightarrow> rec1
         | r # _ \<Rightarrow> rec1\<lparr>doi := extract_doi_any r\<rparr>)"

definition parse_insdseq_nodes :: "xml list \<Rightarrow> parsed_rec list" where
  "parse_insdseq_nodes nodes = map (parse_seq_node ''INSD'') nodes"

definition parse_gbseq_nodes :: "xml list \<Rightarrow> parsed_rec list" where
  "parse_gbseq_nodes nodes = map (parse_seq_node ''GB'') nodes"

section \<open>Classification and routing\<close>

text \<open>An output row; \<open>N18S\<close> and \<open>N28S\<close> are the columns \<open>18S\<close> and \<open>28S\<close>.\<close>

record row =
  Species_ID :: string
  COI :: string
  N18S :: string
  N28S :: string
  ITS1 :: string
  ITS2 :: string
  Latitude :: string
  Longitude :: string
  Locality :: string
  Depth :: string
  Collection_Date :: string
  Population_Representation :: string
  Data_Type :: string
  Citation_DOI :: string

text \<open>The state of the loop of \<open>_build_rows_from_parsed\<close>: the two row lists, and the
  counters and examples that the function prints at its end.\<close>

record build_state =
  ind_rows :: "row list"
  edna_rows :: "row list"
  reason_counts :: "string \<rightharpoonup> nat"
  drops :: nat
  examples :: "string list"

definition init_state :: build_state where
  "init_state = \<lparr>ind_rows = [], edna_rows = [],
                  reason_counts = [''text'' \<mapsto> 0, ''latlon'' \<mapsto> 0, ''pacific'' \<mapsto> 0],
                  drops = 0, examples = []\<rparr>"

definition count_reason :: "bool \<Rightarrow> string \<Rightarrow> build_state \<Rightarrow> build_state" where
  "count_reason ok_region reason st =
     (case reason_counts st reason of
        Some n \<Rightarrow> if ok_region then st\<lparr>reason_counts := (reason_counts st)(reason \<mapsto> n + 1)\<rparr> else st
      | None \<Rightarrow> st)"

definition note_drop :: "config \<Rightarrow> string \<Rightarrow> parsed_rec \<Rightarrow> build_state \<Rightarrow> build_state" where
  "note_drop cfg label rec st =
     (let st1 = st\<lparr>drops := drops st + 1\<rparr> in
      if int (length (examples st1)) < DEBUG_SHOW_DROPS cfg
      then st1\<lparr>examples := examples st1 @
             [label @ accession rec @ '' | loc='' @ [CHR 0x27] @ locality rec @ [CHR 0x27]
              @ '' | def='' @ [CHR 0x27] @ take 80 (definition' rec) @ [CHR 0x27]]\<rparr>
      else st1)"

definition build_row :: "parsed_rec \<Rightarrow> string \<Rightarrow> string \<Rightarrow> string \<Rightarrow> bool \<Rightarrow> row" where
  "build_row rec feat_text lat lon as_edna =
     (let markers = pick_marker (definition' rec) feat_text in
      \<lparr>Species_ID = organism rec,
       COI = (if flag_COI markers \<noteq> [] then accession rec else []),
       N18S = (if flag_18S markers \<noteq> [] then accession rec else []),
       N28S = (if flag_28S markers \<noteq> [] then accession rec else []),
       ITS1 = (if flag_ITS1 markers \<noteq> [] then accession rec else []),
       ITS2 = (if flag_ITS2 markers \<noteq> [] then accession rec else []),
       Latitude = lat,
       Longitude = lon,
       Locality = locality rec,
       Depth = depth rec,
       Collection_Date = date rec,
       Population_Representation = [],
       Data_Type = (if as_edna then ''eDNA'' else ''Individual''),
       Citation_DOI = doi rec\<rparr>)"

text \<open>One pass of the loop body. An exception of \<open>region_match\<close> or \<open>parse_lat_lon\<close>
  would leave the function; it is the result \<open>Inl\<close>.\<close>

definition process_record :: "config \<Rightarrow> parsed_rec \<Rightarrow> build_state \<Rightarrow> py_error + build_state" where
  "process_record cfg rec st =
     (let classify_edna = CLASSIFY_EDNA cfg;
          edna_relaxed = EDNA_REGION_RELAXED cfg;
          region_on = REGION_FILTER_ENABLED cfg;
          feat_text = py_join '' '' (feature_notes rec)
      in
      case region_match cfg (locality rec) (definition' rec) feat_text (lat_raw rec) of
        Inl err \<Rightarrow> Inl err
      | Inr (ok_region, reason) \<Rightarrow>
          (let st1 = count_reason ok_region reason st;
               is_edna = fst (detect_edna cfg (locality rec) (definition' rec) feat_text (qual_names rec))
           in
           if \<not> ok_region \<and> \<not> is_edna \<and> region_on then Inr (note_drop cfg ''drop: '' rec st1)
           else
             (case parse_lat_lon (lat_raw rec) of
                Inl err \<Rightarrow> Inl err
              | Inr (lat, lon) \<Rightarrow>
                  (let new_row = build_row rec feat_text lat lon (is_edna \<and> classify_edna) in
                   if is_edna \<and> classify_edna then
                     (if \<not> region_on \<or> ok_region \<or> edna_relaxed
                      then Inr (st1\<lparr>edna_rows := edna_rows st1 @ [new_row]\<rparr>)
                      else Inr (note_drop cfg ''drop(eDNA): '' rec st1))
                   else if \<not> region_on \<or> ok_region
                        then Inr (st1\<lparr>ind_rows := ind_rows st1 @ [new_row]\<rparr>)
                   else Inr st1))))"

fun build_loop :: "config \<Rightarrow> parsed_rec list \<Rightarrow> build_state \<Rightarrow> py_error + build_state" where
  "build_loop cfg [] st = Inr st"
| "build_loop cfg (rec # rest) st =
     (case process_record cfg rec st of
        Inl err \<Rightarrow> Inl err
      | Inr st' \<Rightarrow> build_loop cfg rest st')"

definition build_rows_from_parsed :: "config \<Rightarrow> parsed_rec list \<Rightarrow> py_error + (row list \<times> row list)" where
  "build_rows_from_parsed cfg parsed =
     (case build_loop cfg parsed init_state of
        Inl err \<Rightarrow> Inl err
      | Inr st \<Rightarrow> Inr (ind_rows st, edna_rows st))"

section \<open>Population representation\<close>

text \<open>
  A component of the grouping key is a rounded float or, when a conversion fails, the raw
  string. A dictionary compares float keys by value, so \<open>0.0\<close> and \<open>-0.0\<close> are one key; a
  NaN is equal to nothing but the very object it is, and each row makes its own, so a NaN
  component carries the index of its row. With that, two keys are the same dictionary key
  exactly when they are equal here.
\<close>

datatype key_part = KNum pyfloat | KNaN nat | KRaw string

fun float_key :: "nat \<Rightarrow> pyfloat \<Rightarrow> key_part" where
  "float_key i NaN = KNaN i"
| "float_key i (Infinity neg) = KNum (Infinity neg)"
| "float_key i (Finite neg m e) = (if m = 0 then KNum (Finite False 0 0) else KNum (Finite neg m e))"

type_synonym pop_key = "string \<times> string \<times> string \<times> key_part \<times> key_part"

text \<open>\<open>round(float(lat), GROUP_ROUND)\<close> and the same for \<open>lon\<close>, inside one \<open>try\<close>: \<open>None\<close>
  when any of the four calls raises.\<close>

definition rounded_coords :: "config \<Rightarrow> string \<Rightarrow> string \<Rightarrow> (pyfloat \<times> pyfloat) option" where
  "rounded_coords cfg lat lon =
     (case py_float lat of
        None \<Rightarrow> None
      | Some x \<Rightarrow>
          (case py_round x (GROUP_ROUND cfg) of
             None \<Rightarrow> None
           | Some lat_f \<Rightarrow>
               (case py_float lon of
                  None \<Rightarrow> None
                | Some y \<Rightarrow>
                    (case py_round y (GROUP_ROUND cfg) of
                       None \<Rightarrow> None
                     | Some lon_f \<Rightarrow> Some (lat_f, lon_f)))))"

definition row_key :: "config \<Rightarrow> nat \<Rightarrow> row \<Rightarrow> pop_key" where
  "row_key cfg i r =
     (let lat = Latitude r; lon = Longitude r in
      case rounded_coords cfg lat lon of
        None \<Rightarrow> (Species_ID r, Locality r, Collection_Date r, KRaw lat, KRaw lon)
      | Some (lat_f, lon_f) \<Rightarrow>
          (Species_ID r, Locality r, Collection_Date r, float_key i lat_f, float_key i lon_f))"

definition get_count :: "(pop_key \<rightharpoonup> nat) \<Rightarrow> pop_key \<Rightarrow> nat" where
  "get_count counts k = (case counts k of None \<Rightarrow> 0 | Some n \<Rightarrow> n)"

text \<open>The first loop, over the rows from index \<open>i\<close> on, with the dictionary \<open>counts\<close> and
  the list \<open>keys\<close> as they stand.\<close>

fun count_loop :: "config \<Rightarrow> nat \<Rightarrow> row list \<Rightarrow> (pop_key \<rightharpoonup> nat) \<Rightarrow> pop_key list
                   \<Rightarrow> (pop_key \<rightharpoonup> nat) \<times> pop_key list" where
  "count_loop cfg i [] counts keys = (counts, keys)"
| "count_loop cfg i (r # rs) counts keys =
     (let key = row_key cfg i r
      in count_loop cfg (Suc i) rs (counts(key \<mapsto> get_count counts key + 1)) (keys @ [key]))"

definition add_population_rep :: "config \<Rightarrow> row list \<Rightarrow> row list" where
  "add_population_rep cfg rows =
     (if \<not> COMPUTE_POPULATION_REP cfg \<or> rows = [] then rows
      else
        let (counts, keys) = count_loop cfg 0 rows Map.empty []
        in map (\<lambda>(r, k). let n = get_count counts k
                          in r\<lparr>Population_Representation := (if 1 < n then str_nat n else [])\<rparr>)
               (zip rows keys))"

section \<open>Notions used in the statements\<close>

text \<open>An unsigned decimal numeral as the hemisphere pattern reads it: digits, optionally
  followed by a point and more digits.\<close>

definition is_number_text :: "string \<Rightarrow> bool" where
  "is_number_text u =
     (takeWhile is_digit u \<noteq> [] \<and>
      (case dropWhile is_digit u of
         [] \<Rightarrow> True
       | c # fs \<Rightarrow> c = CHR ''.'' \<and> fs \<noteq> [] \<and> list_all is_digit fs))"

text \<open>The characters that a pattern can read.\<close>

fun rx_chars :: "regex list \<Rightarrow> char \<Rightarrow> bool" where
  "rx_chars [] c = False"
| "rx_chars (Cls p # rs) c = (p c \<or> rx_chars rs c)"
| "rx_chars (Repeat p lo hi # rs) c = (p c \<or> rx_chars rs c)"
| "rx_chars (Optional xs # rs) c = (rx_chars xs c \<or> rx_chars rs c)"
| "rx_chars (Group n xs # rs) c = (rx_chars xs c \<or> rx_chars rs c)"
| "rx_chars (Bol # rs) c = rx_chars rs c"
| "rx_chars (Eol # rs) c = rx_chars rs c"

text \<open>The region decision for a coordinate string taken alone: it parses to a pair
  that lies in the box.\<close>

definition coords_in_box :: "config \<Rightarrow> string \<Rightarrow> bool" where
  "coords_in_box cfg raw =
     (case parse_lat_lon raw of
        Inl err \<Rightarrow> False
      | Inr (lat_s, lon_s) \<Rightarrow> lat_s \<noteq> [] \<and> lon_s \<noteq> [] \<and> in_box cfg lat_s lon_s = Some True)"

text \<open>What the routing engine computes for one record: the feature text, the region
  decision, the classification, the parsed coordinates, the row, and whether the record
  is kept as an individual or as eDNA.\<close>

definition feat_text :: "parsed_rec \<Rightarrow> string" where
  "feat_text rec = py_join '' '' (feature_notes rec)"

definition region_ok :: "config \<Rightarrow> parsed_rec \<Rightarrow> bool" where
  "region_ok cfg rec =
     (case region_match cfg (locality rec) (definition' rec) (feat_text rec) (lat_raw rec) of
        Inl err \<Rightarrow> False
      | Inr (ok, reason) \<Rightarrow> ok)"

definition classified_edna :: "config \<Rightarrow> parsed_rec \<Rightarrow> bool" where
  "classified_edna cfg rec =
     (CLASSIFY_EDNA cfg \<and>
      fst (detect_edna cfg (locality rec) (definition' rec) (feat_text rec) (qual_names rec)))"

definition coords :: "parsed_rec \<Rightarrow> string \<times> string" where
  "coords rec = (case parse_lat_lon (lat_raw rec) of Inl err \<Rightarrow> ([], []) | Inr p \<Rightarrow> p)"

definition row_of :: "config \<Rightarrow> parsed_rec \<Rightarrow> row" where
  "row_of cfg rec =
     build_row rec (feat_text rec) (fst (coords rec)) (snd (coords rec)) (classified_edna cfg rec)"

definition kept_edna :: "config \<Rightarrow> parsed_rec \<Rightarrow> bool" where
  "kept_edna cfg rec =
     (classified_edna cfg rec \<and>
      (\<not> REGION_FILTER_ENABLED cfg \<or> region_ok cfg rec \<or> EDNA_REGION_RELAXED cfg))"

definition kept_individual :: "config \<Rightarrow> parsed_rec \<Rightarrow> bool" where
  "kept_individual cfg rec =
     (\<not> classified_edna cfg rec \<and> (\<not> REGION_FILTER_ENABLED cfg \<or> region_ok cfg rec))"

text \<open>The citation lookup in the words of the specification: the first entry of the
  cross-reference list whose database name is \<open>doi\<close> in any case and whose value is
  not empty, and the pattern search in the free text.\<close>

definition structured_doi :: "string \<Rightarrow> string \<Rightarrow> string \<Rightarrow> string \<Rightarrow> xml \<Rightarrow> string option" where
  "structured_doi xref_tag entry_tag dbname_tag id_tag ref_node =
     (case find_child xref_tag ref_node of
        None \<Rightarrow> None
      | Some xp \<Rightarrow>
          (case List.find (\<lambda>x. py_lower (or_empty (findtext dbname_tag x)) = ''doi'' \<and>
                               or_empty (findtext id_tag x) \<noteq> [])
                          (findall_children entry_tag xp) of
             None \<Rightarrow> None
           | Some x \<Rightarrow> Some (py_strip (or_empty (findtext id_tag x)))))"

definition free_text_doi :: "xml \<Rightarrow> string" where
  "free_text_doi ref_node =
     (case re_search DOI_RE (py_join '' '' (text_parts ref_node)) of
        None \<Rightarrow> []
      | Some m \<Rightarrow> group m 1)"

text \<open>The grouping keys of a row sequence, and the size of the group of row \<open>i\<close>.\<close>

definition keys_of :: "config \<Rightarrow> nat \<Rightarrow> row list \<Rightarrow> pop_key list" where
  "keys_of cfg i rows = map (\<lambda>(j, r). row_key cfg j r) (enumerate i rows)"

definition group_size :: "config \<Rightarrow> row list \<Rightarrow> nat \<Rightarrow> nat" where
  "group_size cfg rows i = count_list (keys_of cfg 0 rows) (keys_of cfg 0 rows ! i)"

text \<open>The two records of the end-to-end example of the specification: a specimen from
  Monterey Bay with a COI sequence, and an environmental sample without locality.\<close>

definition example_specimen :: parsed_rec where
  "example_specimen =
     \<lparr>accession = ''AB000001.1'', organism = ''Batillipes mirus'',
      definition' = ''COI gene, partial cds'', locality = ''USA: California: Monterey Bay'',
      lat_raw = ''36.5 N 121.9 W'', depth = [], date = [], feature_notes = [],
      qual_names = {''country'', ''lat_lon''}, doi = []\<rparr>"

definition example_sample :: parsed_rec where
  "example_sample =
     \<lparr>accession = ''MZ000002.1'', organism = ''uncultured Tardigrada'',
      definition' = ''eDNA metabarcoding seawater sample'', locality = [],
      lat_raw = [], depth = [], date = [], feature_notes = [],
      qual_names = {''environmental_sample''}, doi = []\<rparr>"

section \<open>Evaluation rules\<close>

lemmas string_eval =
  py_lower_def lower_char_def upper_letters_def lower_letters_def py_upper_def upper_char_def
  is_space_def is_digit_def py_strip_def digit_char_def one_of_def none_of_def

lemmas regex_eval =
  re_match_def re_search_def rep_counts_def group_def Let_def
  unsigned_number_def signed_number_def DECIMAL_PAIR_RE_def HEMISPHERE_RE_def DOI_RE_def

lemmas float_eval =
  py_float_def float_strip_def float_space_def take_sign_def parse_decimal_def
  parse_exponent_def digits_to_nat_def digit_val_def dec_double_def round_double_def bitlen.simps
  ge_pow2_def rne_div_def frac_of_def decpt_def scaled_floor_def repr_candidate_def
  shortest_digits_def format_repr_def str_nat.simps signed_def Let_def

section \<open>The matcher\<close>

lemma concat_map_single: "concat (map (\<lambda>x. [f x]) xs) = map f xs"
  by (induction xs) auto

lemma rx_run_single_Cls:
  "rx_run [Cls p] (pos, s, gs) = (case s of [] \<Rightarrow> [] | c # cs \<Rightarrow> if p c then [(Suc pos, cs, gs)] else [])"
  by (cases s) auto

lemma rx_run_single_Repeat:
  "rx_run [Repeat p lo hi] (pos, s, gs) = map (\<lambda>k. (pos + k, drop k s, gs)) (rep_counts p lo hi s)"
  by (simp add: concat_map_single)

lemma concat_singletons: "concat (map (\<lambda>x. [x]) xs) = xs"
  by (induction xs) auto

lemma rx_run_Nil_fun: "rx_run [] = (\<lambda>st. [st])"
  by (rule ext) simp

lemma rx_run_single_Optional: "rx_run [Optional xs] st = rx_run xs st @ [st]"
  by (simp add: rx_run_Nil_fun concat_singletons)

lemma rx_run_single_Group:
  "rx_run [Group n xs] (pos, s, gs) =
     map (\<lambda>(pos', s', gs'). (pos', s', (n, take (pos' - pos) s) # gs')) (rx_run xs (pos, s, gs))"
proof -
  have "concat (map (\<lambda>(pos', s', gs'). [(pos', s', (n, take (pos' - pos) s) # gs')]) ys) =
        map (\<lambda>(pos', s', gs'). (pos', s', (n, take (pos' - pos) s) # gs')) ys" for ys
    by (induction ys) auto
  then show ?thesis by simp
qed

lemma rx_run_Cons: "rx_run (r # rs) st = concat (map (rx_run rs) (rx_run [r] st))"
proof (cases st)
  case (fields pos s gs)
  show ?thesis
  proof (cases r)
    case (Cls p)
    then show ?thesis using fields by (cases s) auto
  next
    case (Repeat p lo hi)
    then show ?thesis using fields by (simp add: concat_map_single map_concat o_def del: rx_run.simps(3)) (simp add: o_def)
  next
    case (Optional xs)
    then show ?thesis by (simp add: rx_run_Nil_fun concat_singletons)
  next
    case (Group n xs)
    then show ?thesis using fields
      by (simp only: rx_run_single_Group) (simp add: map_concat o_def split_def)
  next
    case Bol
    then show ?thesis using fields by simp
  next
    case Eol
    then show ?thesis using fields by simp
  qed
qed

lemma rx_run_head:
  assumes "rx_run [r] st = a # as" and "rx_run rs a = b # bs"
  shows "\<exists>cs. rx_run (r # rs) st = b # cs"
  using assms by (simp add: rx_run_Cons [of r rs])

lemma rx_run_mem:
  "st'' \<in> set (rx_run (r # rs) st) \<longleftrightarrow> (\<exists>st' \<in> set (rx_run [r] st). st'' \<in> set (rx_run rs st'))"
  by (subst rx_run_Cons) auto

lemma not_digit_dot [simp]: "\<not> is_digit (CHR ''.'')"
  by (simp add: is_digit_def)

lemma takeWhile_all: "list_all p xs \<Longrightarrow> takeWhile p (xs @ ys) = xs @ takeWhile p ys"
  by (induction xs) auto

lemma dropWhile_all: "list_all p xs \<Longrightarrow> dropWhile p (xs @ ys) = dropWhile p ys"
  by (induction xs) auto

lemma is_number_text_iff:
  "is_number_text u \<longleftrightarrow>
     (u \<noteq> [] \<and> list_all is_digit u) \<or>
     (\<exists>ds fs. u = ds @ CHR ''.'' # fs \<and> ds \<noteq> [] \<and> list_all is_digit ds \<and> fs \<noteq> [] \<and> list_all is_digit fs)"
proof
  assume h: "is_number_text u"
  have split: "u = takeWhile is_digit u @ dropWhile is_digit u" by simp
  show "(u \<noteq> [] \<and> list_all is_digit u) \<or>
     (\<exists>ds fs. u = ds @ CHR ''.'' # fs \<and> ds \<noteq> [] \<and> list_all is_digit ds \<and> fs \<noteq> [] \<and> list_all is_digit fs)"
  proof (cases "dropWhile is_digit u")
    case Nil
    then have "list_all is_digit u" by (simp add: list_all_iff)
    moreover have "u \<noteq> []" using h by (auto simp: is_number_text_def)
    ultimately show ?thesis by simp
  next
    case (Cons c fs)
    then have "c = CHR ''.''" "fs \<noteq> []" "list_all is_digit fs" "takeWhile is_digit u \<noteq> []"
      using h by (auto simp: is_number_text_def)
    moreover have "list_all is_digit (takeWhile is_digit u)"
      by (simp add: list_all_iff) (meson set_takeWhileD)
    moreover have "u = takeWhile is_digit u @ CHR ''.'' # fs"
      using split Cons \<open>c = CHR ''.''\<close> by simp
    ultimately show ?thesis by blast
  qed
next
  assume "(u \<noteq> [] \<and> list_all is_digit u) \<or>
     (\<exists>ds fs. u = ds @ CHR ''.'' # fs \<and> ds \<noteq> [] \<and> list_all is_digit ds \<and> fs \<noteq> [] \<and> list_all is_digit fs)"
  then show "is_number_text u"
  proof
    assume a: "u \<noteq> [] \<and> list_all is_digit u"
    then have t: "takeWhile is_digit u = u" and d: "dropWhile is_digit u = []"
      by (simp_all add: list_all_iff)
    show ?thesis using a by (simp add: is_number_text_def t d)
  next
    assume "\<exists>ds fs. u = ds @ CHR ''.'' # fs \<and> ds \<noteq> [] \<and> list_all is_digit ds \<and> fs \<noteq> [] \<and> list_all is_digit fs"
    then obtain ds fs where u: "u = ds @ CHR ''.'' # fs" and d: "ds \<noteq> []" "list_all is_digit ds"
      and f: "fs \<noteq> []" "list_all is_digit fs" by blast
    show ?thesis unfolding is_number_text_def u using d f
      by (simp add: takeWhile_all dropWhile_all)
  qed
qed

lemma rep_counts_mem:
  "k \<in> set (rep_counts p lo hi s) \<Longrightarrow> lo \<le> k \<and> k \<le> length (takeWhile p s)"
  by (auto simp: rep_counts_def Let_def split: option.splits)

lemma take_le_takeWhile: "k \<le> length (takeWhile p s) \<Longrightarrow> list_all p (take k s)"
proof (induction s arbitrary: k)
  case Nil
  then show ?case by simp
next
  case (Cons c s)
  then show ?case by (cases k) (auto split: if_splits)
qed

lemma repeat_step:
  assumes "st' \<in> set (rx_run [Repeat p lo hi] (pos, s, gs))"
  shows "\<exists>u. s = u @ fst (snd st') \<and> fst st' = pos + length u \<and> snd (snd st') = gs \<and>
             lo \<le> length u \<and> list_all p u"
proof -
  from assms obtain k where k: "k \<in> set (rep_counts p lo hi s)" and st: "st' = (pos + k, drop k s, gs)"
    by (auto simp: rx_run_single_Repeat)
  from rep_counts_mem [OF k] have b: "lo \<le> k" "k \<le> length (takeWhile p s)" by simp_all
  have "k \<le> length s" using b(2) length_takeWhile_le [of p s] by linarith
  then have "length (take k s) = k" by simp
  moreover have "s = take k s @ drop k s" by simp
  moreover have "list_all p (take k s)" using take_le_takeWhile [OF b(2)] .
  ultimately show ?thesis using st b(1) by (intro exI [of _ "take k s"]) simp
qed

lemma unsigned_number_step:
  assumes "st' \<in> set (rx_run unsigned_number (pos, s, gs))"
  shows "\<exists>u. is_number_text u \<and> s = u @ fst (snd st') \<and> fst st' = pos + length u \<and> snd (snd st') = gs"
proof -
  from assms obtain st1 where
    a: "st1 \<in> set (rx_run [Repeat is_digit 1 None] (pos, s, gs))" and
    b: "st' \<in> set (rx_run [Optional [Cls (one_of ''.''), Repeat is_digit 1 None]] st1)"
    unfolding unsigned_number_def by (subst (asm) rx_run_mem) blast
  from repeat_step [OF a] obtain ds where ds: "s = ds @ fst (snd st1)" "fst st1 = pos + length ds"
    "snd (snd st1) = gs" "1 \<le> length ds" "list_all is_digit ds" by blast
  obtain p1 s1 where st1: "st1 = (p1, s1, gs)" using ds(3) by (cases st1) auto
  from b have "st' = st1 \<or> st' \<in> set (rx_run [Cls (one_of ''.''), Repeat is_digit 1 None] st1)"
    by (auto simp: rx_run_single_Optional)
  then show ?thesis
  proof
    assume "st' = st1"
    moreover have "is_number_text ds" using ds(4,5) by (auto simp: is_number_text_iff)
    ultimately show ?thesis using ds by blast
  next
    assume "st' \<in> set (rx_run [Cls (one_of ''.''), Repeat is_digit 1 None] st1)"
    then obtain st2 where c: "st2 \<in> set (rx_run [Cls (one_of ''.'')] st1)"
      and d: "st' \<in> set (rx_run [Repeat is_digit 1 None] st2)"
      by (subst (asm) rx_run_mem) blast
    from c st1 obtain cs where cs: "s1 = CHR ''.'' # cs" "st2 = (Suc p1, cs, gs)"
      by (auto simp: rx_run_single_Cls one_of_def split: list.splits if_splits)
    from repeat_step [OF d [unfolded cs(2)]] obtain fs where fs: "cs = fs @ fst (snd st')"
      "fst st' = Suc p1 + length fs" "snd (snd st') = gs" "1 \<le> length fs" "list_all is_digit fs" by blast
    have "ds \<noteq> []" "fs \<noteq> []" using ds(4) fs(4) by auto
    then have "is_number_text (ds @ CHR ''.'' # fs)"
      unfolding is_number_text_iff using ds(5) fs(5) by blast
    moreover have "s = (ds @ CHR ''.'' # fs) @ fst (snd st')"
      using ds(1) st1 cs(1) fs(1) by simp
    moreover have "fst st' = pos + length (ds @ CHR ''.'' # fs)"
      using fs(2) ds(2) st1 by simp
    ultimately show ?thesis using fs(3) by blast
  qed
qed

lemma digit_facts:
  assumes "is_digit c"
  shows "\<not> float_space c" "c \<noteq> CHR ''_''" "c \<noteq> CHR ''-''" "c \<noteq> CHR ''+''" "c \<noteq> CHR ''.''"
    "lower_char c = c" "\<not> is_space c"
proof -
  from assms have c: "c = CHR ''0'' \<or> c = CHR ''1'' \<or> c = CHR ''2'' \<or> c = CHR ''3'' \<or> c = CHR ''4'' \<or>
      c = CHR ''5'' \<or> c = CHR ''6'' \<or> c = CHR ''7'' \<or> c = CHR ''8'' \<or> c = CHR ''9''"
    by (simp add: is_digit_def)
  show "\<not> float_space c" using c by (auto simp: float_space_def)
  show "c \<noteq> CHR ''_''" "c \<noteq> CHR ''-''" "c \<noteq> CHR ''+''" "c \<noteq> CHR ''.''" using c by auto
  show "\<not> is_space c" using c by (auto simp: is_space_def)
  show "lower_char c = c" using c
    by (elim disjE) (simp_all add: lower_char_def upper_letters_def lower_letters_def)
qed

lemma drop_underscores_id:
  "CHR ''_'' \<notin> set u \<Longrightarrow> prev \<noteq> CHR ''_'' \<Longrightarrow> drop_underscores prev u = Some u"
  by (induction u arbitrary: prev) auto

lemma float_strip_id:
  assumes "u \<noteq> []" "\<not> float_space (hd u)" "\<not> float_space (last u)"
  shows "float_strip u = u"
proof -
  have a: "dropWhile float_space u = u" using assms(1,2) by (cases u) auto
  obtain x xs where r: "rev u = x # xs" using assms(1) by (cases "rev u") auto
  then have "x = last u" using assms(1) by (metis hd_rev list.sel(1))
  then have b: "dropWhile float_space (rev u) = rev u" using assms(3) by (simp add: r)
  show ?thesis by (simp add: float_strip_def a b)
qed

lemma parse_decimal_number:
  assumes "is_number_text u"
  shows "\<exists>n k. parse_decimal u = Some (n, k)"
  using assms unfolding is_number_text_iff
proof
  assume a: "u \<noteq> [] \<and> list_all is_digit u"
  then have t: "takeWhile is_digit u = u" and d: "dropWhile is_digit u = []"
    by (simp_all add: list_all_iff)
  show ?thesis using a by (simp add: parse_decimal_def parse_exponent_def Let_def t d)
next
  assume "\<exists>ds fs. u = ds @ CHR ''.'' # fs \<and> ds \<noteq> [] \<and> list_all is_digit ds \<and> fs \<noteq> [] \<and> list_all is_digit fs"
  then obtain ds fs where u: "u = ds @ CHR ''.'' # fs" and d: "ds \<noteq> []" "list_all is_digit ds"
    and f: "fs \<noteq> []" "list_all is_digit fs" by blast
  have t: "takeWhile is_digit fs = fs" and dr: "dropWhile is_digit fs = []"
    using f by (simp_all add: list_all_iff)
  show ?thesis unfolding u using d f
    by (simp add: parse_decimal_def parse_exponent_def Let_def takeWhile_all dropWhile_all t dr)
qed

lemma number_text_chars:
  assumes "is_number_text u"
  shows "u \<noteq> []" "is_digit (hd u)" "is_digit (last u)" "CHR ''_'' \<notin> set u"
proof -
  from assms consider (a) "u \<noteq> [] \<and> list_all is_digit u"
    | (b) ds fs where "u = ds @ CHR ''.'' # fs" "ds \<noteq> []" "list_all is_digit ds" "fs \<noteq> []" "list_all is_digit fs"
    unfolding is_number_text_iff by blast
  then have "u \<noteq> [] \<and> is_digit (hd u) \<and> is_digit (last u) \<and> CHR ''_'' \<notin> set u"
  proof cases
    case a
    then have "\<forall>c \<in> set u. is_digit c" by (simp add: list_all_iff)
    then show ?thesis using a digit_facts(2) by (auto simp: hd_in_set last_in_set)
  next
    case b
    then have "\<forall>c \<in> set ds. is_digit c" "\<forall>c \<in> set fs. is_digit c" by (simp_all add: list_all_iff)
    then show ?thesis using b digit_facts(2) by (auto simp: hd_append last_in_set hd_in_set)
  qed
  then show "u \<noteq> []" "is_digit (hd u)" "is_digit (last u)" "CHR ''_'' \<notin> set u" by simp_all
qed

lemma py_float_number:
  assumes "is_number_text u"
  shows "\<exists>x. py_float u = Some x"
proof -
  note c = number_text_chars [OF assms]
  have strip: "float_strip u = u"
    using c digit_facts(1) by (intro float_strip_id) auto
  have us: "drop_underscores (CHR 0x00) u = Some u"
    using c(4) by (intro drop_underscores_id) auto
  obtain d t where dt: "u = d # t" using c(1) by (cases u) auto
  then have d: "is_digit d" using c(2) by simp
  have sign: "take_sign u = (False, u)"
    using dt digit_facts(3,4) [OF d] by (simp add: take_sign_def)
  have low: "py_lower u = d # py_lower t"
    using dt digit_facts(6) [OF d] by (simp add: py_lower_def)
  have ne: "py_lower u \<noteq> ''inf''" "py_lower u \<noteq> ''infinity''" "py_lower u \<noteq> ''nan''"
    using low d by (auto simp: is_digit_def)
  from parse_decimal_number [OF assms] obtain n k where "parse_decimal u = Some (n, k)" by blast
  then show ?thesis
    by (simp add: py_float_def strip us sign ne)
qed

lemma rx_run_mem2:
  "st'' \<in> set (rx_run (r # r' # rs) st) \<longleftrightarrow>
     (\<exists>st' \<in> set (rx_run [r] st). st'' \<in> set (rx_run (r' # rs) st'))"
  by (rule rx_run_mem)

lemma cls_step:
  assumes "st' \<in> set (rx_run [Cls p] (pos, s, gs))"
  shows "\<exists>c cs. s = c # cs \<and> p c \<and> st' = (Suc pos, cs, gs)"
  using assms by (auto simp: rx_run_single_Cls split: list.splits if_splits)

lemma group_step:
  assumes "st' \<in> set (rx_run [Group n xs] (pos, s, gs))"
  shows "\<exists>pos' s' gs0. (pos', s', gs0) \<in> set (rx_run xs (pos, s, gs)) \<and>
            st' = (pos', s', (n, take (pos' - pos) s) # gs0)"
  using assms by (auto simp: rx_run_single_Group)

lemma group_unsigned_step:
  assumes "st' \<in> set (rx_run [Group n unsigned_number] (pos, s, gs))"
  shows "\<exists>u pos' s'. is_number_text u \<and> st' = (pos', s', (n, u) # gs)"
proof -
  from group_step [OF assms] obtain pos' s' gs0 where
    a: "(pos', s', gs0) \<in> set (rx_run unsigned_number (pos, s, gs))" and
    b: "st' = (pos', s', (n, take (pos' - pos) s) # gs0)" by blast
  from unsigned_number_step [OF a] obtain u where
    "is_number_text u" "s = u @ s'" "pos' = pos + length u" "gs0 = gs" by auto
  then show ?thesis using b by auto
qed

lemma hemisphere_groups:
  assumes "st' \<in> set (rx_run HEMISPHERE_RE (pos, s, []))"
  shows "is_number_text (group (snd (snd st')) 1) \<and> is_number_text (group (snd (snd st')) 3)"
proof -
  from assms obtain a1 a2 a3 a4 a5 a6 where
    s1: "a1 \<in> set (rx_run [Group 1 unsigned_number] (pos, s, []))" and
    s2: "a2 \<in> set (rx_run [Repeat is_space 0 None] a1)" and
    s3: "a3 \<in> set (rx_run [Group 2 [Cls (one_of ''NSns'')]] a2)" and
    s4: "a4 \<in> set (rx_run [Repeat (none_of ''0123456789-+'') 1 None] a3)" and
    s5: "a5 \<in> set (rx_run [Group 3 unsigned_number] a4)" and
    s6: "a6 \<in> set (rx_run [Repeat is_space 0 None] a5)" and
    s7: "st' \<in> set (rx_run [Group 4 [Cls (one_of ''EWew'')]] a6)"
    unfolding HEMISPHERE_RE_def by (simp only: rx_run_mem2) blast
  from group_unsigned_step [OF s1] obtain u1 p1 t1 where
    u1: "is_number_text u1" "a1 = (p1, t1, [(1, u1)])" by blast
  from repeat_step [OF s2 [unfolded u1(2)]] obtain p2 t2 where a2: "a2 = (p2, t2, [(1, u1)])"
    by (cases a2) auto
  from group_step [OF s3 [unfolded a2]] obtain p3 t3 g2 gs3 where
    a3: "a3 = (p3, t3, (2, g2) # gs3)" and
    i3: "(p3, t3, gs3) \<in> set (rx_run [Cls (one_of ''NSns'')] (p2, t2, [(1, u1)]))" by blast
  from cls_step [OF i3] have gs3: "gs3 = [(1, u1)]" by auto
  from repeat_step [OF s4 [unfolded a3]] obtain p4 t4 where a4: "a4 = (p4, t4, (2, g2) # gs3)"
    by (cases a4) auto
  from group_unsigned_step [OF s5 [unfolded a4]] obtain u3 p5 t5 where
    u3: "is_number_text u3" "a5 = (p5, t5, (3, u3) # (2, g2) # gs3)" by blast
  from repeat_step [OF s6 [unfolded u3(2)]] obtain p6 t6 where
    a6: "a6 = (p6, t6, (3, u3) # (2, g2) # gs3)" by (cases a6) auto
  from group_step [OF s7 [unfolded a6]] obtain p7 t7 g4 gs7 where
    a7: "st' = (p7, t7, (4, g4) # gs7)" and
    i7: "(p7, t7, gs7) \<in> set (rx_run [Cls (one_of ''EWew'')] (p6, t6, (3, u3) # (2, g2) # gs3))" by blast
  from cls_step [OF i7] have gs7: "gs7 = (3, u3) # (2, g2) # gs3" by auto
  show ?thesis using u1(1) u3(1) by (simp add: a7 gs7 gs3 group_def)
qed

lemma search_from_Some:
  "search_from rx pos s = Some gs \<Longrightarrow> \<exists>pos' s' p t. (p, t, gs) \<in> set (rx_run rx (pos', s', []))"
proof (induction s arbitrary: pos)
  case Nil
  then show ?case
    by (auto split: list.splits) (metis list.set_intros(1))
next
  case (Cons c cs)
  show ?case
  proof (cases "rx_run rx (pos, c # cs, [])")
    case Nil
    then show ?thesis using Cons by simp
  next
    case (Cons a as)
    then show ?thesis using Cons.prems
      by (auto split: prod.splits) (metis list.set_intros(1))
  qed
qed

lemma parse_lat_lon_total: "\<exists>lat lon. parse_lat_lon s = Inr (lat, lon)"
proof (cases "re_search HEMISPHERE_RE (py_strip s)")
  case None
  then show ?thesis by (auto simp: parse_lat_lon_def Let_def split: option.splits)
next
  case (Some m)
  then obtain pos' s' p t where "(p, t, m) \<in> set (rx_run HEMISPHERE_RE (pos', s', []))"
    unfolding re_search_def using search_from_Some by blast
  from hemisphere_groups [OF this] have "is_number_text (group m 1)" "is_number_text (group m 3)"
    by simp_all
  then obtain x y where "py_float (group m 1) = Some x" "py_float (group m 3) = Some y"
    using py_float_number by blast
  then show ?thesis using Some by (auto simp: parse_lat_lon_def Let_def split: option.splits)
qed

lemma rx_run_consumes:
  "st' \<in> set (rx_run rs st) \<Longrightarrow>
     \<exists>u. fst (snd st) = u @ fst (snd st') \<and> (\<forall>c \<in> set u. rx_chars rs c)"
proof (induction rs st arbitrary: st' rule: rx_run.induct)
  case (1 st)
  then show ?case by simp
next
  case (2 p rs pos s gs)
  then show ?case
  proof (cases s)
    case Nil
    then show ?thesis using 2 by simp
  next
    case (Cons c cs)
    then have pc: "p c" and m: "st' \<in> set (rx_run rs (Suc pos, cs, gs))"
      using 2(2) by (auto split: if_splits)
    from 2(1) [OF Cons pc m] obtain u where "cs = u @ fst (snd st')" "\<forall>c \<in> set u. rx_chars rs c"
      by auto
    then show ?thesis using Cons pc by (intro exI [of _ "c # u"]) auto
  qed
next
  case (3 p lo hi rs pos s gs)
  from 3(2) obtain k where k: "k \<in> set (rep_counts p lo hi s)"
    and m: "st' \<in> set (rx_run rs (pos + k, drop k s, gs))" by auto
  from 3(1) [OF k m] obtain u where u: "drop k s = u @ fst (snd st')" "\<forall>c \<in> set u. rx_chars rs c"
    by auto
  have "list_all p (take k s)" using rep_counts_mem [OF k] take_le_takeWhile by blast
  then have "\<forall>c \<in> set (take k s @ u). rx_chars (Repeat p lo hi # rs) c"
    using u(2) by (auto simp: list_all_iff)
  moreover have "s = (take k s @ u) @ fst (snd st')" using u(1) by (metis append.assoc append_take_drop_id)
  ultimately show ?case by (intro exI [of _ "take k s @ u"]) simp
next
  case (4 xs rs st)
  from 4(3) have "st' \<in> (\<Union>x \<in> set (rx_run xs st @ [st]). set (rx_run rs x))"
    by auto
  then obtain st1 where a0: "st1 \<in> set (rx_run xs st @ [st])"
    and m: "st' \<in> set (rx_run rs st1)" by blast
  from a0 have a: "st1 \<in> set (rx_run xs st) \<or> st1 = st" by auto
  have st1: "st1 \<in> set (rx_run xs st @ [st])" using a by auto
  from 4(2) [OF st1 m] obtain u where u: "fst (snd st1) = u @ fst (snd st')" "\<forall>c \<in> set u. rx_chars rs c"
    by auto
  from a show ?case
  proof
    assume "st1 = st"
    then show ?thesis using u by auto
  next
    assume "st1 \<in> set (rx_run xs st)"
    from 4(1) [OF this] obtain v where v: "fst (snd st) = v @ fst (snd st1)" "\<forall>c \<in> set v. rx_chars xs c"
      by auto
    show ?thesis using u v by (intro exI [of _ "v @ u"]) auto
  qed
next
  case (5 n xs rs pos s gs)
  from 5(3) obtain pos' s' gs' where a: "(pos', s', gs') \<in> set (rx_run xs (pos, s, gs))"
    and m: "st' \<in> set (rx_run rs (pos', s', (n, take (pos' - pos) s) # gs'))" by auto
  from 5(1) [OF a] obtain v where v: "s = v @ s'" "\<forall>c \<in> set v. rx_chars xs c" by auto
  from 5(2) [OF a refl refl m] obtain u where u: "s' = u @ fst (snd st')" "\<forall>c \<in> set u. rx_chars rs c"
    by auto
  show ?case using u v by (intro exI [of _ "v @ u"]) auto
next
  case (6 rs pos s gs)
  then show ?case by (cases st') (auto split: if_splits)
next
  case (7 rs pos s gs)
  then show ?case by (cases st') (auto split: if_splits)
qed

lemma concat_map_concat:
  "concat (map g (concat (map f xs))) = concat (map (\<lambda>a. concat (map g (f a))) xs)"
  by (induction xs) auto

lemma rx_run_append: "rx_run (xs @ ys) st = concat (map (rx_run ys) (rx_run xs st))"
proof (induction xs arbitrary: st)
  case Nil
  then show ?case by simp
next
  case (Cons x xs)
  have "rx_run ((x # xs) @ ys) st = concat (map (rx_run (xs @ ys)) (rx_run [x] st))"
    by (simp add: rx_run_Cons [of x "xs @ ys"])
  also have "\<dots> = concat (map (\<lambda>a. concat (map (rx_run ys) (rx_run xs a))) (rx_run [x] st))"
  proof -
    have "rx_run (xs @ ys) = (\<lambda>a. concat (map (rx_run ys) (rx_run xs a)))"
      by (rule ext) (rule Cons)
    then show ?thesis by (simp only:)
  qed
  also have "\<dots> = concat (map (rx_run ys) (concat (map (rx_run xs) (rx_run [x] st))))"
    by (simp only: concat_map_concat)
  also have "\<dots> = concat (map (rx_run ys) (rx_run (x # xs) st))"
    by (simp add: rx_run_Cons [of x xs])
  finally show ?case .
qed

lemma py_strip_id:
  assumes "u \<noteq> []" "\<not> is_space (hd u)" "\<not> is_space (last u)"
  shows "py_strip u = u"
proof -
  have a: "dropWhile is_space u = u" using assms(1,2) by (cases u) auto
  obtain x xs where r: "rev u = x # xs" using assms(1) by (cases "rev u") auto
  then have "x = last u" using assms(1) by (metis hd_rev list.sel(1))
  then have b: "dropWhile is_space (rev u) = rev u" using assms(3) by (simp add: r)
  show ?thesis by (simp add: py_strip_def a b)
qed

lemma re_match_Some:
  "re_match rx s = Some m \<Longrightarrow> \<exists>p t. (p, t, m) \<in> set (rx_run rx (0, s, []))"
  by (auto simp: re_match_def split: list.splits)

lemma decimal_pair_chars:
  assumes "re_match DECIMAL_PAIR_RE s = Some m"
  shows "\<forall>c \<in> set s. is_space c \<or> is_digit c \<or> c \<in> set ''+-.,;/''"
proof -
  define front where "front = [Bol, Repeat is_space 0 None, Group 1 signed_number, Repeat is_space 0 None,
      Cls (one_of '',;/''), Repeat is_space 0 None, Group 2 signed_number,
      Repeat is_space 0 None]"
  have split: "DECIMAL_PAIR_RE = front @ [Eol]" by (simp add: DECIMAL_PAIR_RE_def front_def)
  from re_match_Some [OF assms] obtain p t where "(p, t, m) \<in> set (rx_run (front @ [Eol]) (0, s, []))"
    unfolding split by blast
  then obtain st1 where a: "st1 \<in> set (rx_run front (0, s, []))"
    and b: "(p, t, m) \<in> set (rx_run [Eol] st1)"
    unfolding rx_run_append by auto
  obtain p1 s1 g1 where st1: "st1 = (p1, s1, g1)" by (cases st1) auto
  from b have e: "s1 = [] \<or> s1 = [CHR 0x0A]" unfolding st1 by (auto split: if_splits)
  from rx_run_consumes [OF a] obtain u where u: "s = u @ s1" "\<forall>c \<in> set u. rx_chars front c"
    unfolding st1 by auto
  have "rx_chars front c \<Longrightarrow> is_space c \<or> is_digit c \<or> c \<in> set ''+-.,;/''" for c
    by (auto simp: front_def signed_number_def unsigned_number_def one_of_def)
  moreover have "is_space (CHR 0x0A)" by (simp add: is_space_def)
  ultimately show ?thesis using u e by auto
qed

lemma takeWhile_exact:
  assumes "list_all p u" "r = [] \<or> \<not> p (hd r)"
  shows "takeWhile p (u @ r) = u" "dropWhile p (u @ r) = r"
proof -
  have "takeWhile p r = []" "dropWhile p r = r" using assms(2) by (cases r; simp)+
  then show "takeWhile p (u @ r) = u" "dropWhile p (u @ r) = r"
    using assms(1) by (simp_all add: takeWhile_all dropWhile_all)
qed

lemma repeat_head:
  assumes "list_all p u" "lo \<le> length u" "r = [] \<or> \<not> p (hd r)"
  shows "\<exists>rest. rx_run [Repeat p lo None] (pos, u @ r, gs) = (pos + length u, r, gs) # rest"
proof -
  have t: "takeWhile p (u @ r) = u" using takeWhile_exact [OF assms(1,3)] by simp
  have "[lo ..< Suc (length u)] = [lo ..< length u] @ [length u]" using assms(2) by simp
  then have "rep_counts p lo None (u @ r) = length u # rev [lo ..< length u]"
    using assms(2) by (simp add: rep_counts_def t Let_def)
  then show ?thesis by (simp add: rx_run_single_Repeat)
qed

lemma unsigned_head:
  assumes "is_number_text n" "r \<noteq> []" "\<not> is_digit (hd r)" "hd r \<noteq> CHR ''.''"
  shows "\<exists>rest. rx_run unsigned_number (pos, n @ r, gs) = (pos + length n, r, gs) # rest"
proof -
  from assms(1) consider (a) "n \<noteq> [] \<and> list_all is_digit n"
    | (b) ds fs where "n = ds @ CHR ''.'' # fs" "ds \<noteq> []" "list_all is_digit ds" "fs \<noteq> []" "list_all is_digit fs"
    unfolding is_number_text_iff by blast
  then show ?thesis
  proof cases
    case a
    then have "1 \<le> length n" by (cases n) auto
    from repeat_head [OF _ this, of is_digit r pos gs] a assms(3) obtain rest1 where
      h1: "rx_run [Repeat is_digit 1 None] (pos, n @ r, gs) = (pos + length n, r, gs) # rest1" by blast
    obtain c cs where r: "r = c # cs" using assms(2) by (cases r) auto
    then have "c \<noteq> CHR ''.''" using assms(4) by simp
    then have "rx_run [Cls (one_of ''.''), Repeat is_digit 1 None] (pos + length n, r, gs) = []"
      by (simp add: r one_of_def)
    then have h2: "rx_run [Optional [Cls (one_of ''.''), Repeat is_digit 1 None]] (pos + length n, r, gs)
        = (pos + length n, r, gs) # []"
      by (simp only: rx_run_single_Optional) simp
    show ?thesis unfolding unsigned_number_def using rx_run_head [OF h1 h2] .
  next
    case b
    then have l: "1 \<le> length ds" "1 \<le> length fs" by (cases ds; cases fs; auto)+
    have nd: "(CHR ''.'' # fs @ r) = [] \<or> \<not> is_digit (hd (CHR ''.'' # fs @ r))" by simp
    from repeat_head [OF b(3) l(1) nd, of pos gs] obtain rest1 where
      h1: "rx_run [Repeat is_digit 1 None] (pos, ds @ CHR ''.'' # fs @ r, gs)
            = (pos + length ds, CHR ''.'' # fs @ r, gs) # rest1" by blast
    from repeat_head [OF b(5) l(2), of r "Suc (pos + length ds)" gs] assms(3) obtain rest2 where
      h2: "rx_run [Repeat is_digit 1 None] (Suc (pos + length ds), fs @ r, gs)
            = (Suc (pos + length ds) + length fs, r, gs) # rest2" by blast
    have "rx_run [Cls (one_of ''.''), Repeat is_digit 1 None] (pos + length ds, CHR ''.'' # fs @ r, gs)
          = rx_run [Repeat is_digit 1 None] (Suc (pos + length ds), fs @ r, gs)"
      by (simp add: one_of_def)
    then have h3: "rx_run [Optional [Cls (one_of ''.''), Repeat is_digit 1 None]]
          (pos + length ds, CHR ''.'' # fs @ r, gs)
          = (Suc (pos + length ds) + length fs, r, gs) # (rest2 @ [(pos + length ds, CHR ''.'' # fs @ r, gs)])"
      using h2 by (simp only: rx_run_single_Optional) simp
    have "\<exists>rest. rx_run unsigned_number (pos, ds @ CHR ''.'' # fs @ r, gs)
          = (Suc (pos + length ds) + length fs, r, gs) # rest"
      unfolding unsigned_number_def using rx_run_head [OF h1 h3] .
    then show ?thesis using b(1) by (simp add: add.assoc)
  qed
qed

lemma group_head:
  assumes "rx_run xs (pos, s, gs) = (pos', s', gs') # rest"
  shows "\<exists>rest'. rx_run [Group n xs] (pos, s, gs) = (pos', s', (n, take (pos' - pos) s) # gs') # rest'"
  using assms by (simp add: rx_run_single_Group)

lemma group_unsigned_head:
  assumes "is_number_text u" "r \<noteq> []" "\<not> is_digit (hd r)" "hd r \<noteq> CHR ''.''"
  shows "\<exists>rest. rx_run [Group n unsigned_number] (pos, u @ r, gs) = (pos + length u, r, (n, u) # gs) # rest"
proof -
  from unsigned_head [OF assms, of pos gs] obtain rest where
    "rx_run unsigned_number (pos, u @ r, gs) = (pos + length u, r, gs) # rest" by blast
  from group_head [OF this, of n] show ?thesis by simp
qed

lemma group_cls_head:
  assumes "p c"
  shows "\<exists>rest. rx_run [Group n [Cls p]] (pos, c # r, gs) = (Suc pos, r, (n, [c]) # gs) # rest"
  using assms by (simp add: rx_run_single_Group)

lemma space_facts:
  assumes "is_space c"
  shows "\<not> is_digit c" "c \<noteq> CHR ''.''" "c \<notin> set ''NSns''" "c \<notin> set ''EWew''"
  using assms by (auto simp: is_space_def is_digit_def)

lemma letter_facts:
  assumes "c \<in> set ''NSnsEWew''"
  shows "\<not> is_digit c" "c \<noteq> CHR ''.''" "\<not> is_space c" "c \<notin> set ''+-.,;/''"
  using assms by (auto simp: is_space_def is_digit_def)

lemma hd_spaces_then:
  assumes "list_all is_space w"
  shows "hd (w @ c # r) = c \<or> is_space (hd (w @ c # r))"
  using assms by (cases w) auto

lemma upper_S: "c \<in> set ''NSns'' \<Longrightarrow> py_upper [c] = ''S'' \<longleftrightarrow> c \<in> set ''Ss''"
  by (auto simp: py_upper_def upper_char_def upper_letters_def lower_letters_def)

lemma upper_W: "c \<in> set ''EWew'' \<Longrightarrow> py_upper [c] = ''W'' \<longleftrightarrow> c \<in> set ''Ww''"
  by (auto simp: py_upper_def upper_char_def upper_letters_def lower_letters_def)

lemma hemisphere_match:
  assumes n1: "is_number_text n1" and n2: "is_number_text n2"
    and w1: "list_all is_space w1" and w2: "list_all is_space w2"
    and h1: "h1 \<in> set ''NSns''" and h2: "h2 \<in> set ''EWew''"
    and sep: "sep \<noteq> []" "list_all (none_of ''0123456789-+'') sep"
  shows "re_search HEMISPHERE_RE (n1 @ w1 @ [h1] @ sep @ n2 @ w2 @ [h2])
         = Some [(4, [h2]), (3, n2), (2, [h1]), (1, n1)]"
proof -
  have h1': "h1 \<in> set ''NSnsEWew''" and h2': "h2 \<in> set ''NSnsEWew''" using h1 h2 by auto
  define r5 where "r5 = w2 @ [h2]"
  define r3 where "r3 = sep @ n2 @ r5"
  define r1 where "r1 = w1 @ h1 # r3"
  have r5: "r5 \<noteq> []" "\<not> is_digit (hd r5)" "hd r5 \<noteq> CHR ''.''"
    using hd_spaces_then [OF w2, of h2 "[]"] letter_facts [OF h2'] space_facts
    unfolding r5_def by auto
  have r1: "r1 \<noteq> []" "\<not> is_digit (hd r1)" "hd r1 \<noteq> CHR ''.''"
    using hd_spaces_then [OF w1, of h1 r3] letter_facts [OF h1'] space_facts
    unfolding r1_def by auto
  obtain d t where n2d: "n2 = d # t" "is_digit d"
    using number_text_chars [OF n2] by (cases n2) auto
  have r4: "(n2 @ r5) = [] \<or> \<not> none_of ''0123456789-+'' (hd (n2 @ r5))"
    using n2d by (auto simp: none_of_def is_digit_def)
  from group_unsigned_head [OF n1 r1, of 1 0 "[]"] obtain x1 where
    t1: "rx_run [Group 1 unsigned_number] (0, n1 @ r1, []) = (length n1, r1, [(1, n1)]) # x1" by auto
  from repeat_head [OF w1, of 0 "h1 # r3" "length n1" "[(1, n1)]"] letter_facts(3) [OF h1'] obtain x2 where
    t2: "rx_run [Repeat is_space 0 None] (length n1, r1, [(1, n1)])
         = (length n1 + length w1, h1 # r3, [(1, n1)]) # x2" unfolding r1_def by auto
  from group_cls_head [of "one_of ''NSns''" h1 2 "length n1 + length w1" r3 "[(1, n1)]"] h1 obtain x3 where
    t3: "rx_run [Group 2 [Cls (one_of ''NSns'')]] (length n1 + length w1, h1 # r3, [(1, n1)])
         = (Suc (length n1 + length w1), r3, [(2, [h1]), (1, n1)]) # x3"
    by (auto simp: one_of_def)
  define p3 where "p3 = Suc (length n1 + length w1)"
  have l: "1 \<le> length sep" using sep(1) by (cases sep) auto
  from repeat_head [OF sep(2) l r4, of p3 "[(2, [h1]), (1, n1)]"] obtain x4 where
    t4: "rx_run [Repeat (none_of ''0123456789-+'') 1 None] (p3, r3, [(2, [h1]), (1, n1)])
         = (p3 + length sep, n2 @ r5, [(2, [h1]), (1, n1)]) # x4" unfolding r3_def by auto
  from group_unsigned_head [OF n2 r5, of 3 "p3 + length sep" "[(2, [h1]), (1, n1)]"] obtain x5 where
    t5: "rx_run [Group 3 unsigned_number] (p3 + length sep, n2 @ r5, [(2, [h1]), (1, n1)])
         = (p3 + length sep + length n2, r5, [(3, n2), (2, [h1]), (1, n1)]) # x5" by auto
  define p5 where "p5 = p3 + length sep + length n2"
  from repeat_head [OF w2, of 0 "[h2]" p5 "[(3, n2), (2, [h1]), (1, n1)]"] letter_facts(3) [OF h2'] obtain x6 where
    t6: "rx_run [Repeat is_space 0 None] (p5, r5, [(3, n2), (2, [h1]), (1, n1)])
         = (p5 + length w2, [h2], [(3, n2), (2, [h1]), (1, n1)]) # x6" unfolding r5_def by auto
  from group_cls_head [of "one_of ''EWew''" h2 4 "p5 + length w2" "[]" "[(3, n2), (2, [h1]), (1, n1)]"] h2 obtain x7 where
    t7: "rx_run [Group 4 [Cls (one_of ''EWew'')]] (p5 + length w2, [h2], [(3, n2), (2, [h1]), (1, n1)])
         = (Suc (p5 + length w2), [], [(4, [h2]), (3, n2), (2, [h1]), (1, n1)]) # x7"
    by (auto simp: one_of_def)
  note c6 = rx_run_head [OF t6 t7]
  then obtain y6 where c6': "rx_run [Repeat is_space 0 None, Group 4 [Cls (one_of ''EWew'')]]
      (p5, r5, [(3, n2), (2, [h1]), (1, n1)]) = (Suc (p5 + length w2), [], [(4, [h2]), (3, n2), (2, [h1]), (1, n1)]) # y6"
    by blast
  from rx_run_head [OF t5 [folded p5_def] c6'] obtain y5 where c5: "rx_run [Group 3 unsigned_number, Repeat is_space 0 None, Group 4 [Cls (one_of ''EWew'')]]
      (p3 + length sep, n2 @ r5, [(2, [h1]), (1, n1)]) = (Suc (p5 + length w2), [], [(4, [h2]), (3, n2), (2, [h1]), (1, n1)]) # y5"
    by blast
  from rx_run_head [OF t4 c5] obtain y4 where c4: "rx_run [Repeat (none_of ''0123456789-+'') 1 None, Group 3 unsigned_number, Repeat is_space 0 None, Group 4 [Cls (one_of ''EWew'')]]
      (p3, r3, [(2, [h1]), (1, n1)]) = (Suc (p5 + length w2), [], [(4, [h2]), (3, n2), (2, [h1]), (1, n1)]) # y4"
    by blast
  from rx_run_head [OF t3 [folded p3_def] c4] obtain y3 where c3: "rx_run [Group 2 [Cls (one_of ''NSns'')], Repeat (none_of ''0123456789-+'') 1 None, Group 3 unsigned_number, Repeat is_space 0 None, Group 4 [Cls (one_of ''EWew'')]]
      (length n1 + length w1, h1 # r3, [(1, n1)]) = (Suc (p5 + length w2), [], [(4, [h2]), (3, n2), (2, [h1]), (1, n1)]) # y3"
    by blast
  from rx_run_head [OF t2 c3] obtain y2 where c2: "rx_run [Repeat is_space 0 None, Group 2 [Cls (one_of ''NSns'')], Repeat (none_of ''0123456789-+'') 1 None, Group 3 unsigned_number, Repeat is_space 0 None, Group 4 [Cls (one_of ''EWew'')]]
      (length n1, r1, [(1, n1)]) = (Suc (p5 + length w2), [], [(4, [h2]), (3, n2), (2, [h1]), (1, n1)]) # y2"
    by blast
  from rx_run_head [OF t1 c2] obtain y1 where c1: "rx_run HEMISPHERE_RE (0, n1 @ r1, [])
      = (Suc (p5 + length w2), [], [(4, [h2]), (3, n2), (2, [h1]), (1, n1)]) # y1"
    unfolding HEMISPHERE_RE_def by blast
  have s: "n1 @ w1 @ [h1] @ sep @ n2 @ w2 @ [h2] = n1 @ r1"
    by (simp add: r1_def r3_def r5_def)
  obtain c cs where ne: "n1 @ r1 = c # cs" using r1(1) by (cases "n1 @ r1") auto
  show ?thesis unfolding s re_search_def using c1 unfolding ne by simp
qed

section \<open>The coordinate parser\<close>

text \<open>
  C8. \<open>parse_lat_lon\<close> returns a pair for every input string and never raises; for
  the empty input, and for an input whose stripped text matches neither the decimal
  pair pattern nor the hemisphere pattern, the pair is \<open>("", "")\<close>.
\<close>

theorem parse_lat_lon_never_raises:
  "(\<exists>lat lon. parse_lat_lon s = Inr (lat, lon)) \<and>
   (s = [] \<or> (re_match DECIMAL_PAIR_RE (py_strip s) = None \<and>
               re_search HEMISPHERE_RE (py_strip s) = None)
    \<longrightarrow> parse_lat_lon s = Inr ([], []))"
  using parse_lat_lon_total [of s] by (auto simp: parse_lat_lon_def Let_def)

theorem parse_lat_lon_never_raises_witness:
  "(\<exists>lat lon. parse_lat_lon ''garbage'' = Inr (lat, lon)) \<and>
   re_match DECIMAL_PAIR_RE (py_strip ''garbage'') = None \<and>
   re_search HEMISPHERE_RE (py_strip ''garbage'') = None \<and>
   parse_lat_lon ''garbage'' = Inr ([], []) \<and>
   parse_lat_lon [] = Inr ([], [])"
proof -
  have h: "re_match DECIMAL_PAIR_RE (py_strip ''garbage'') = None \<and>
           re_search HEMISPHERE_RE (py_strip ''garbage'') = None"
    by (simp add: string_eval regex_eval)
  show ?thesis
    using parse_lat_lon_never_raises [of "''garbage''"] parse_lat_lon_never_raises [of "[]"] h
    by blast
qed

text \<open>
  C7 (amended). For an input of the form \<open><num> N|S <separator> <num> E|W\<close>, where each
  number is an unsigned decimal numeral, the hemisphere letters are of either case,
  blanks may stand between a number and its letter, and the separator is a non-empty
  run of characters other than digits and the signs \<open>+\<close> and \<open>-\<close>, \<open>parse_lat_lon\<close> returns
  the two numbers as floats printed by \<open>repr\<close>, the latitude negated exactly when its
  letter is S or s and the longitude negated exactly when its letter is W or w.
\<close>

theorem hemisphere_form:
  assumes n1: "is_number_text n1" and n2: "is_number_text n2"
    and w1: "list_all is_space w1" and w2: "list_all is_space w2"
    and h1: "h1 \<in> set ''NSns''" and h2: "h2 \<in> set ''EWew''"
    and sep: "sep \<noteq> []" "list_all (none_of ''0123456789-+'') sep"
  shows "\<exists>lat lon. py_float n1 = Some lat \<and> py_float n2 = Some lon \<and>
           parse_lat_lon (n1 @ w1 @ [h1] @ sep @ n2 @ w2 @ [h2]) =
             Inr (py_repr (if h1 \<in> set ''Ss'' then py_neg lat else lat),
                  py_repr (if h2 \<in> set ''Ww'' then py_neg lon else lon))"
proof -
  define s where "s = n1 @ w1 @ [h1] @ sep @ n2 @ w2 @ [h2]"
  have h1': "h1 \<in> set ''NSnsEWew''" and h2': "h2 \<in> set ''NSnsEWew''" using h1 h2 by auto
  from py_float_number [OF n1] obtain lat where lat: "py_float n1 = Some lat" by blast
  from py_float_number [OF n2] obtain lon where lon: "py_float n2 = Some lon" by blast
  have ne: "s \<noteq> []" by (simp add: s_def)
  have "hd s = hd n1" using number_text_chars(1) [OF n1] by (simp add: s_def)
  then have hd: "\<not> is_space (hd s)" using number_text_chars(2) [OF n1] digit_facts(7) by simp
  have "last s = h2" by (simp add: s_def)
  then have la: "\<not> is_space (last s)" using letter_facts(3) [OF h2'] by simp
  have strip: "py_strip s = s" using py_strip_id [OF ne hd la] .
  have "h1 \<in> set s" by (simp add: s_def)
  then have nm: "re_match DECIMAL_PAIR_RE s = None"
    using decimal_pair_chars [of s] letter_facts [OF h1'] by (cases "re_match DECIMAL_PAIR_RE s") auto
  have m: "re_search HEMISPHERE_RE s = Some [(4, [h2]), (3, n2), (2, [h1]), (1, n1)]"
    unfolding s_def by (rule hemisphere_match [OF assms])
  have "parse_lat_lon s = Inr (py_repr (if h1 \<in> set ''Ss'' then py_neg lat else lat),
                  py_repr (if h2 \<in> set ''Ww'' then py_neg lon else lon))"
    using ne upper_S [OF h1] upper_W [OF h2]
    by (simp add: parse_lat_lon_def strip nm m group_def lat lon Let_def)
  then show ?thesis using lat lon unfolding s_def by blast
qed



theorem hemisphere_form_witness:
  "is_number_text ''12.3'' \<and> is_number_text ''45.6'' \<and> list_all is_space '' '' \<and>
   CHR ''N'' \<in> set ''NSns'' \<and> CHR ''W'' \<in> set ''EWew'' \<and>
   list_all (none_of ''0123456789-+'') '' '' \<and>
   parse_lat_lon ''12.3 N 45.6 W'' = Inr (''12.3'', ''-45.6'')"
proof -
  have n1: "is_number_text ''12.3''" and n2: "is_number_text ''45.6''"
    by (simp_all add: is_number_text_def is_digit_def)
  have w: "list_all is_space '' ''" by (simp add: is_space_def)
  have h1: "CHR ''N'' \<in> set ''NSns''" and h2: "CHR ''W'' \<in> set ''EWew''" by simp_all
  have sep: "'' '' \<noteq> []" "list_all (none_of ''0123456789-+'') '' ''" by (simp_all add: none_of_def)
  have f1: "py_float ''12.3'' = Some (Finite False 6924284427082138 (- 49))"
    by (simp add: float_eval string_eval)
  have f2: "py_float ''45.6'' = Some (Finite False 6417629469002957 (- 47))"
    by (simp add: float_eval string_eval)
  have r1: "py_repr (Finite False 6924284427082138 (- 49)) = ''12.3''"
    by (simp add: float_eval string_eval)
  have r2: "py_repr (Finite True 6417629469002957 (- 47)) = ''-45.6''"
    by (simp add: float_eval string_eval)
  from hemisphere_form [OF n1 n2 w w h1 h2 sep] obtain lat lon where
    a: "py_float ''12.3'' = Some lat" "py_float ''45.6'' = Some lon" and
    b: "parse_lat_lon (''12.3'' @ '' '' @ [CHR ''N''] @ '' '' @ ''45.6'' @ '' '' @ [CHR ''W'']) =
          Inr (py_repr (if CHR ''N'' \<in> set ''Ss'' then py_neg lat else lat),
               py_repr (if CHR ''W'' \<in> set ''Ww'' then py_neg lon else lon))"
    by blast
  from a f1 f2 have "lat = Finite False 6924284427082138 (- 49)" "lon = Finite False 6417629469002957 (- 47)"
    by simp_all
  with b r1 r2 have "parse_lat_lon ''12.3 N 45.6 W'' = Inr (''12.3'', ''-45.6'')" by simp
  then show ?thesis using n1 n2 w h1 h2 sep by simp
qed

text \<open>The separator \<open>" - "\<close> holds no digit, yet the input is not recognised: the
  pattern admits no sign character between the two parts.\<close>

theorem hemisphere_form_counterexample:
  "list_all (\<lambda>c. \<not> is_digit c) '' - '' \<and>
   parse_lat_lon (''12.3'' @ '' '' @ ''N'' @ '' - '' @ ''45.6'' @ '' '' @ ''W'') = Inr ([], [])"
  by (simp add: parse_lat_lon_def string_eval regex_eval)

end
